theory Spec2Isabelle
  imports Main "HOL-Library.Char_ord" "HOL-Library.List_Lexorder" "HOL-Library.Multiset"
begin

section \<open>The relational backend\<close>

text \<open>
  The admin pages talk to a relational backend through its client library: every call is
  a request that returns \<open>{ data, error }\<close>. The tables are modelled as lists of rows,
  in the order in which the rows were inserted. A call takes the database and returns
  either the error the client would see or the database after the statement.

  The columns and constraints of \<open>admin_requests\<close>, \<open>gallery_albums\<close> and
  \<open>gallery_images\<close> are those of the migrations; the columns of \<open>user_roles\<close> and
  \<open>profiles\<close> are those of the generated client types (their migrations are not part
  of the source tree). Timestamps are natural numbers. The column \<open>updated_at\<close> of
  \<open>gallery_albums\<close> is maintained by a trigger and read by no page; it is left out.
\<close>

datatype app_role = App_admin | App_moderator | App_user

record admin_requests_row =
  req_id :: string
  req_user_id :: string
  req_email :: string
  req_status :: string
  req_reviewed_by :: "string option"
  req_created_at :: nat
  req_reviewed_at :: "nat option"

record user_roles_row =
  ur_id :: string
  ur_user_id :: string
  ur_role :: app_role
  ur_created_at :: nat

record profiles_row =
  prof_id :: string
  prof_email :: string

record gallery_albums_row =
  alb_id :: string
  alb_title :: string
  alb_description :: "string option"
  alb_cover_image_url :: "string option"
  alb_is_active :: bool
  alb_display_order :: int
  alb_created_at :: nat

record gallery_images_row =
  img_id :: string
  img_album_id :: string
  img_image_url :: string
  img_caption :: "string option"
  img_display_order :: int
  img_created_at :: nat

record database =
  auth_users :: "string list"
  profiles :: "profiles_row list"
  user_roles :: "user_roles_row list"
  admin_requests :: "admin_requests_row list"
  gallery_albums :: "gallery_albums_row list"
  gallery_images :: "gallery_images_row list"

definition empty_database :: database where
  "empty_database =
     \<lparr>auth_users = [], profiles = [], user_roles = [], admin_requests = [],
      gallery_albums = [], gallery_images = []\<rparr>"

text \<open>
  What a call can answer instead of a result. The first three are the violations of the
  constraints the migrations declare; \<open>Not_found\<close> is the document store's answer to an
  update of a missing document; \<open>Fault\<close> stands for every failure the source tree does
  not decide: the network, a row-level-security policy, a constraint of a table whose
  migration is not in the tree.
\<close>

datatype backend_error =
    Unique_violation
  | Foreign_key_violation
  | Check_violation
  | Not_found
  | Fault string

text \<open>
  What the handlers take from their surroundings: the value of \<open>gen_random_uuid()\<close> for
  a row they insert, the backend's clock at their first and second write, the browser's
  clock, and, for each remote call they issue (in program order), whether it fails for a
  reason outside the source tree.
\<close>

record env =
  fresh_id :: string
  db_now :: nat
  db_now2 :: nat
  client_now :: nat
  fault1 :: "backend_error option"
  fault2 :: "backend_error option"
  fault3 :: "backend_error option"

subsection \<open>Statements on \<open>admin_requests\<close> and \<open>user_roles\<close>\<close>

text \<open>\<open>CHECK (status IN ('pending', 'approved', 'rejected'))\<close>\<close>

definition valid_status :: "string \<Rightarrow> bool" where
  "valid_status s = (s \<in> set [''pending'', ''approved'', ''rejected''])"

text \<open>
  \<open>from("admin_requests").insert({ user_id, email, status })\<close>. The defaults fill
  \<open>id\<close> and \<open>created_at\<close>; \<open>reviewed_by\<close> and \<open>reviewed_at\<close> stay NULL. The
  statement is refused on a duplicate primary key, on a second row for the same user
  (\<open>UNIQUE (user_id)\<close>), on a user the auth schema does not know
  (\<open>REFERENCES auth.users(id)\<close>) and on a status outside the check constraint.
\<close>

definition insert_admin_requests ::
    "backend_error option \<Rightarrow> string \<Rightarrow> nat \<Rightarrow> string \<Rightarrow> string \<Rightarrow> string \<Rightarrow> database
      \<Rightarrow> backend_error + database" where
  "insert_admin_requests fault new_id now uid email st db =
     (case fault of
        Some e \<Rightarrow> Inl e
      | None \<Rightarrow>
          if new_id \<in> set (map req_id (admin_requests db)) then Inl Unique_violation
          else if uid \<in> set (map req_user_id (admin_requests db)) then Inl Unique_violation
          else if uid \<notin> set (auth_users db) then Inl Foreign_key_violation
          else if \<not> valid_status st then Inl Check_violation
          else Inr (db\<lparr>admin_requests := admin_requests db @
                 [\<lparr>req_id = new_id, req_user_id = uid, req_email = email, req_status = st,
                   req_reviewed_by = None, req_created_at = now, req_reviewed_at = None\<rparr>]\<rparr>))"

text \<open>
  \<open>from("admin_requests").update({ status, reviewed_at, reviewed_by }).eq("id", requestId)\<close>.
  The handler passes \<open>user?.id\<close> as \<open>reviewed_by\<close>: with nobody signed in the value
  is \<open>undefined\<close>, the key is dropped from the request body and the column keeps its
  value. A statement that matches no row changes nothing and is no error. The
  constraints are checked on the rows that change: the status check, and
  \<open>reviewed_by REFERENCES auth.users(id)\<close>.
\<close>

definition review_row :: "string \<Rightarrow> nat \<Rightarrow> string option \<Rightarrow> admin_requests_row \<Rightarrow> admin_requests_row" where
  "review_row st t reviewer r =
     r\<lparr>req_status := st, req_reviewed_at := Some t,
       req_reviewed_by := (case reviewer of Some u \<Rightarrow> Some u | None \<Rightarrow> req_reviewed_by r)\<rparr>"

definition update_admin_requests ::
    "backend_error option \<Rightarrow> string \<Rightarrow> string \<Rightarrow> nat \<Rightarrow> string option \<Rightarrow> database
      \<Rightarrow> backend_error + database" where
  "update_admin_requests fault requestId st t reviewer db =
     (case fault of
        Some e \<Rightarrow> Inl e
      | None \<Rightarrow>
          if requestId \<notin> set (map req_id (admin_requests db)) then Inr db
          else if \<not> valid_status st then Inl Check_violation
          else if (case reviewer of Some u \<Rightarrow> u \<notin> set (auth_users db) | None \<Rightarrow> False)
            then Inl Foreign_key_violation
          else Inr (db\<lparr>admin_requests :=
                 map (\<lambda>r. if req_id r = requestId then review_row st t reviewer r else r)
                   (admin_requests db)\<rparr>))"

text \<open>
  \<open>from("user_roles").insert({ user_id, role })\<close>. The migration of \<open>user_roles\<close> is
  not in the source tree, so whether the backend accepts the row is the call's
  \<open>fault\<close> argument; an accepted row is appended.
\<close>

definition insert_user_roles ::
    "backend_error option \<Rightarrow> string \<Rightarrow> nat \<Rightarrow> string \<Rightarrow> app_role \<Rightarrow> database
      \<Rightarrow> backend_error + database" where
  "insert_user_roles fault new_id now uid r db =
     (case fault of
        Some e \<Rightarrow> Inl e
      | None \<Rightarrow>
          Inr (db\<lparr>user_roles := user_roles db @
                 [\<lparr>ur_id = new_id, ur_user_id = uid, ur_role = r, ur_created_at = now\<rparr>]\<rparr>))"

text \<open>
  Modelled from the spec: the server-side function \<open>delete-user\<close>, which the admin page
  invokes with \<open>{ userId }\<close>, is not in the source tree. The spec calls it the
  privileged function "that deletes a user account and all associated data"; the page's
  own dialog says it deletes "their account, profile, and all associated data". The
  account is the entry of the auth schema; the associated data are the user's profile,
  role rows and admin request (the last also by \<open>ON DELETE CASCADE\<close> in the migration),
  and \<open>reviewed_by\<close> of the requests the user reviewed is set to NULL
  (\<open>ON DELETE SET NULL\<close>). An \<open>error\<close> of the invocation and an \<open>error\<close> field in
  its answer both make the handlers throw; both are the \<open>fault\<close> argument.
\<close>

definition forget_reviewer :: "string \<Rightarrow> admin_requests_row \<Rightarrow> admin_requests_row" where
  "forget_reviewer uid r =
     (if req_reviewed_by r = Some uid then r\<lparr>req_reviewed_by := None\<rparr> else r)"

definition delete_user :: "backend_error option \<Rightarrow> string \<Rightarrow> database \<Rightarrow> backend_error + database" where
  "delete_user fault uid db =
     (case fault of
        Some e \<Rightarrow> Inl e
      | None \<Rightarrow>
          Inr (db\<lparr>auth_users := removeAll uid (auth_users db),
                  profiles := filter (\<lambda>p. prof_id p \<noteq> uid) (profiles db),
                  user_roles := filter (\<lambda>r. ur_user_id r \<noteq> uid) (user_roles db),
                  admin_requests :=
                    map (forget_reviewer uid)
                      (filter (\<lambda>r. req_user_id r \<noteq> uid) (admin_requests db))\<rparr>))"

subsection \<open>The admin management page\<close>

text \<open>
  A handler's visible result: the database after it, the state-changing requests it
  sent to the backend (in order), and the notification it showed (\<open>Toast_error_of\<close>
  is the error notification for a thrown backend error, whose text the handler takes from
  the error; \<open>Field_errors\<close> stands for the messages a form shows at its fields
  when its input is invalid and no notification is shown). The
  reads that refresh the page afterwards (\<open>fetchAdmins\<close>, \<open>refetchPending\<close>, the
  query invalidation) and the \<open>processingId\<close> spinner state change nothing in the
  backend and are left out.

  The admin pages are rendered by the admin layout only for a signed-in user who is an
  administrator. For that caller the row-level-security policies of the migrations
  (administrators may select, update and delete every request) let the statements
  through unchanged; where a policy refuses a statement, as the insert policy
  \<open>auth.uid() = user_id\<close> can for the sign-up form, that is a \<open>Fault\<close>.
\<close>

datatype remote_call =
    Call_insert_user_roles string app_role
  | Call_update_admin_requests string
  | Call_insert_admin_requests string
  | Call_invoke_delete_user string
  | Call_signUp string

datatype toast =
    Toast_success string
  | Toast_error string
  | Toast_error_of backend_error
  | Field_errors

record outcome =
  out_db :: database
  out_calls :: "remote_call list"
  out_toast :: toast

text \<open>
  \<open>handleApproveRequest(requestId, userId, email)\<close>: insert the role row, throw on
  its error; then update the request, throw on its error; the \<open>catch\<close> shows the
  error. \<open>user\<close> is the signed-in user's id (\<open>user?.id\<close>), if any.
\<close>

definition handleApproveRequest ::
    "string option \<Rightarrow> env \<Rightarrow> string \<Rightarrow> string \<Rightarrow> string \<Rightarrow> database \<Rightarrow> outcome" where
  "handleApproveRequest user e requestId userId email db =
     (case insert_user_roles (fault1 e) (fresh_id e) (db_now e) userId App_admin db of
        Inl roleError \<Rightarrow>
          \<lparr>out_db = db,
           out_calls = [Call_insert_user_roles userId App_admin],
           out_toast = Toast_error_of roleError\<rparr>
      | Inr db1 \<Rightarrow>
          (case update_admin_requests (fault2 e) requestId ''approved'' (client_now e) user db1 of
             Inl updateError \<Rightarrow>
               \<lparr>out_db = db1,
                out_calls = [Call_insert_user_roles userId App_admin,
                             Call_update_admin_requests requestId],
                out_toast = Toast_error_of updateError\<rparr>
           | Inr db2 \<Rightarrow>
               \<lparr>out_db = db2,
                out_calls = [Call_insert_user_roles userId App_admin,
                             Call_update_admin_requests requestId],
                out_toast = Toast_success (email @ '' has been approved as admin'')\<rparr>))"

text \<open>
  \<open>handleRejectRequest(requestId, userId, email)\<close>: invoke \<open>delete-user\<close> for the
  user, throw on a failure, otherwise report that the request was rejected and the user
  removed. The request row itself is never updated by this handler.
\<close>

definition handleRejectRequest :: "env \<Rightarrow> string \<Rightarrow> string \<Rightarrow> string \<Rightarrow> database \<Rightarrow> outcome" where
  "handleRejectRequest e requestId userId email db =
     (case delete_user (fault1 e) userId db of
        Inl err \<Rightarrow>
          \<lparr>out_db = db, out_calls = [Call_invoke_delete_user userId],
           out_toast = Toast_error_of err\<rparr>
      | Inr db1 \<Rightarrow>
          \<lparr>out_db = db1, out_calls = [Call_invoke_delete_user userId],
           out_toast = Toast_success
             (''Request from '' @ email @ '' has been rejected and user removed'')\<rparr>)"

text \<open>
  \<open>handleRemoveAdmin(adminId, adminUserId)\<close>: the guard on the signed-in user's own
  id returns before anything is sent.
\<close>

definition handleRemoveAdmin :: "string option \<Rightarrow> env \<Rightarrow> string \<Rightarrow> string \<Rightarrow> database \<Rightarrow> outcome" where
  "handleRemoveAdmin user e adminId adminUserId db =
     (if Some adminUserId = user then
        \<lparr>out_db = db, out_calls = [],
         out_toast = Toast_error ''You cannot remove your own admin access''\<rparr>
      else
        (case delete_user (fault1 e) adminUserId db of
           Inl err \<Rightarrow>
             \<lparr>out_db = db, out_calls = [Call_invoke_delete_user adminUserId],
              out_toast = Toast_error_of err\<rparr>
         | Inr db1 \<Rightarrow>
             \<lparr>out_db = db1, out_calls = [Call_invoke_delete_user adminUserId],
              out_toast = Toast_success ''User completely removed from system''\<rparr>))"

subsection \<open>The pending-requests hook\<close>

text \<open>
  The query function of \<open>usePendingRequests\<close>:
  \<open>select("*").eq("status", "pending").order("created_at", { ascending: false })\<close>,
  throwing on an error. Rows with equal \<open>created_at\<close> come in an order the database
  chooses; the model fixes one such order.
\<close>

definition order_created_at_desc :: "admin_requests_row list \<Rightarrow> admin_requests_row list" where
  "order_created_at_desc rows = rev (sort_key req_created_at rows)"

definition usePendingRequests_queryFn ::
    "backend_error option \<Rightarrow> database \<Rightarrow> backend_error + admin_requests_row list" where
  "usePendingRequests_queryFn fault db =
     (case fault of
        Some e \<Rightarrow> Inl e
      | None \<Rightarrow>
          Inr (order_created_at_desc
                 (filter (\<lambda>r. req_status r = ''pending'') (admin_requests db))))"

subsection \<open>The sign-up form\<close>

text \<open>
  Text in the model is the UTF-8 encoding of the JavaScript string, one \<open>char\<close> per
  byte. The string methods the form handler uses are written on that encoding.

  \<open>trim\<close> removes from both ends the code points that the language counts as white
  space or line terminators: U+0009 to U+000D, U+0020, U+00A0, U+1680, U+2000 to U+200A,
  U+2028, U+2029, U+202F, U+205F, U+3000 and U+FEFF. In UTF-8 the first six are single
  bytes, U+00A0 is the two bytes C2 A0, and the others are three bytes each. A lead byte
  never occurs inside another code point, so matching these byte sequences at the start
  and (reversed) at the end removes exactly those code points.
\<close>

definition ws1 :: "char \<Rightarrow> bool" where
  "ws1 a = (a \<in> set [CHR 0x09, CHR 0x0A, CHR 0x0B, CHR 0x0C, CHR 0x0D, CHR 0x20])"

definition ws2 :: "char \<Rightarrow> char \<Rightarrow> bool" where
  "ws2 a b = (a = CHR 0xC2 \<and> b = CHR 0xA0)"

definition ws3 :: "char \<Rightarrow> char \<Rightarrow> char \<Rightarrow> bool" where
  "ws3 a b c =
     ((a = CHR 0xE1 \<and> b = CHR 0x9A \<and> c = CHR 0x80)
      \<or> (a = CHR 0xE2 \<and> b = CHR 0x80
           \<and> c \<in> set [CHR 0x80, CHR 0x81, CHR 0x82, CHR 0x83, CHR 0x84, CHR 0x85, CHR 0x86,
                        CHR 0x87, CHR 0x88, CHR 0x89, CHR 0x8A, CHR 0xA8, CHR 0xA9, CHR 0xAF])
      \<or> (a = CHR 0xE2 \<and> b = CHR 0x81 \<and> c = CHR 0x9F)
      \<or> (a = CHR 0xE3 \<and> b = CHR 0x80 \<and> c = CHR 0x80)
      \<or> (a = CHR 0xEF \<and> b = CHR 0xBB \<and> c = CHR 0xBF))"

fun strip ::
    "(char \<Rightarrow> bool) \<Rightarrow> (char \<Rightarrow> char \<Rightarrow> bool) \<Rightarrow> (char \<Rightarrow> char \<Rightarrow> char \<Rightarrow> bool)
      \<Rightarrow> string \<Rightarrow> string" where
  "strip p1 p2 p3 (a # b # c # s) =
     (if p1 a then strip p1 p2 p3 (b # c # s)
      else if p2 a b then strip p1 p2 p3 (c # s)
      else if p3 a b c then strip p1 p2 p3 s
      else a # b # c # s)"
| "strip p1 p2 p3 [a, b] =
     (if p1 a then strip p1 p2 p3 [b] else if p2 a b then [] else [a, b])"
| "strip p1 p2 p3 [a] = (if p1 a then [] else [a])"
| "strip p1 p2 p3 [] = []"

definition trimStart :: "string \<Rightarrow> string" where
  "trimStart s = strip ws1 ws2 ws3 s"

definition trimEnd :: "string \<Rightarrow> string" where
  "trimEnd s = rev (strip ws1 (\<lambda>a b. ws2 b a) (\<lambda>a b c. ws3 c b a) (rev s))"

definition trim :: "string \<Rightarrow> string" where
  "trim s = trimEnd (trimStart s)"

text \<open>
  \<open>length\<close> of a JavaScript string counts UTF-16 code units: one for every code point
  of one, two or three bytes, two for a code point of four bytes. Counted on the bytes:
  a continuation byte (80 to BF) adds nothing, a lead byte from F0 on adds two, every other
  byte adds one.
\<close>

definition utf16_units :: "char \<Rightarrow> nat" where
  "utf16_units c =
     (if c < CHR 0x80 then 1 else if c < CHR 0xC0 then 0 else if c < CHR 0xF0 then 1 else 2)"

definition utf16_length :: "string \<Rightarrow> nat" where
  "utf16_length s = sum_list (map utf16_units s)"

text \<open>
  \<open>includes\<close> with an ASCII needle: an ASCII byte is never part of a longer code
  point, so the needle occurs in the text exactly where its bytes occur.
\<close>

definition str_includes :: "string \<Rightarrow> string \<Rightarrow> bool" where
  "str_includes s t = list_ex (\<lambda>i. take (length t) (drop i s) = t) [0..<Suc (length s)]"

text \<open>
  \<open>toLowerCase\<close> follows the case mapping of the Unicode character database, which is
  not part of the repository: it is a parameter of the handler. On ASCII text it is
  \<open>ascii_toLowerCase\<close>.
\<close>

definition lower_char :: "char \<Rightarrow> char" where
  "lower_char c =
     (if CHR ''A'' \<le> c \<and> c \<le> CHR ''Z'' then char_of (of_char c + (32::nat)) else c)"

definition ascii_toLowerCase :: "string \<Rightarrow> string" where
  "ascii_toLowerCase s = map lower_char s"

text \<open>
  The form state, and what \<open>signUpSchema.safeParse\<close> decides. The schema trims the
  e-mail address and tests it (the validation library's own test, a parameter here),
  wants a password of at least 6 and a confirmation of at least 1 code units, and, as a
  refinement of the whole object, both passwords equal.

  \<open>confirmPassword_error\<close> is what the handler finds in
  \<open>fieldErrors.confirmPassword\<close>: the first message reported at that path. The
  library reports the issues of the fields first and runs the refinement also when a
  field's check has failed, so an empty confirmation gives the field's own message and a
  non-empty one that differs from the password gives the refinement's.
\<close>

record signUp_form =
  form_email :: string
  form_password :: string
  form_confirmPassword :: string

definition signUpSchema_success :: "(string \<Rightarrow> bool) \<Rightarrow> signUp_form \<Rightarrow> bool" where
  "signUpSchema_success is_email f =
     (is_email (trim (form_email f)) \<and> 6 \<le> utf16_length (form_password f)
      \<and> 1 \<le> utf16_length (form_confirmPassword f)
      \<and> form_password f = form_confirmPassword f)"

definition confirmPassword_error :: "signUp_form \<Rightarrow> string option" where
  "confirmPassword_error f =
     (if utf16_length (form_confirmPassword f) < 1 then Some ''Please confirm your password''
      else if form_password f \<noteq> form_confirmPassword f then Some ''Passwords do not match''
      else None)"

text \<open>
  \<open>signUp\<close> comes from the authentication hook, which is not in the source tree: it is
  a parameter of the handler, taking e-mail, password and the backend and returning
  \<open>{ error, userId }\<close> with the backend after the call.
\<close>

record signUp_result =
  su_error :: "string option"
  su_userId :: "string option"

text \<open>
  \<open>handleSignUp\<close>: on invalid input the field errors are shown, and the one of the
  confirmation field, if there is one, also as an error notification. Otherwise
  \<open>signUp\<close> is called with the trimmed address; on its error a notification is
  shown. Without an error, and if \<open>userId\<close> is truthy (a non-empty string), the
  pending request is inserted with the trimmed, lower-cased address; an error of that
  insert is written to the console only, and the success notification follows in every
  case.
\<close>

definition handleSignUp ::
    "(string \<Rightarrow> bool) \<Rightarrow> (string \<Rightarrow> string)
      \<Rightarrow> (string \<Rightarrow> string \<Rightarrow> database \<Rightarrow> signUp_result \<times> database)
      \<Rightarrow> env \<Rightarrow> signUp_form \<Rightarrow> database \<Rightarrow> outcome" where
  "handleSignUp is_email toLowerCase signUp e f db =
     (if \<not> signUpSchema_success is_email f then
        \<lparr>out_db = db, out_calls = [],
         out_toast = (case confirmPassword_error f of
                        Some msg \<Rightarrow> Toast_error msg
                      | None \<Rightarrow> Field_errors)\<rparr>
      else
        (case signUp (trim (form_email f)) (form_password f) db of
           (res, db1) \<Rightarrow>
             (case su_error res of
                Some msg \<Rightarrow>
                  \<lparr>out_db = db1, out_calls = [Call_signUp (trim (form_email f))],
                   out_toast =
                     Toast_error (if str_includes msg ''already registered''
                                  then ''This email is already registered'' else msg)\<rparr>
              | None \<Rightarrow>
                  (case su_userId res of
                     None \<Rightarrow>
                       \<lparr>out_db = db1, out_calls = [Call_signUp (trim (form_email f))],
                        out_toast = Toast_success
                          ''Account created! Your request is pending admin approval.''\<rparr>
                   | Some userId \<Rightarrow>
                       if userId = [] then
                         \<lparr>out_db = db1, out_calls = [Call_signUp (trim (form_email f))],
                          out_toast = Toast_success
                            ''Account created! Your request is pending admin approval.''\<rparr>
                       else
                         \<lparr>out_db =
                            (case insert_admin_requests (fault1 e) (fresh_id e) (db_now e) userId
                                    (toLowerCase (trim (form_email f))) ''pending'' db1 of
                               Inl requestError \<Rightarrow> db1
                             | Inr db2 \<Rightarrow> db2),
                          out_calls = [Call_signUp (trim (form_email f)),
                                       Call_insert_admin_requests userId],
                          out_toast = Toast_success
                            ''Account created! Your request is pending admin approval.''\<rparr>))))"

subsection \<open>Statements on the gallery tables\<close>

text \<open>
  \<open>gallery_images.album_id\<close> is declared
  \<open>NOT NULL REFERENCES gallery_albums(id) ON DELETE CASCADE\<close>: an image can only be
  inserted for an album that exists, and deleting an album deletes its images in the
  same statement.
\<close>

definition insert_gallery_albums ::
    "backend_error option \<Rightarrow> string \<Rightarrow> nat \<Rightarrow> string \<Rightarrow> string option \<Rightarrow> database
      \<Rightarrow> backend_error + database" where
  "insert_gallery_albums fault new_id now title description db =
     (case fault of
        Some e \<Rightarrow> Inl e
      | None \<Rightarrow>
          if new_id \<in> set (map alb_id (gallery_albums db)) then Inl Unique_violation
          else Inr (db\<lparr>gallery_albums := gallery_albums db @
                 [\<lparr>alb_id = new_id, alb_title = title, alb_description = description,
                   alb_cover_image_url = None, alb_is_active = True, alb_display_order = 0,
                   alb_created_at = now\<rparr>]\<rparr>))"

definition delete_gallery_albums ::
    "backend_error option \<Rightarrow> string \<Rightarrow> database \<Rightarrow> backend_error + database" where
  "delete_gallery_albums fault albumId db =
     (case fault of
        Some e \<Rightarrow> Inl e
      | None \<Rightarrow>
          if albumId \<notin> set (map alb_id (gallery_albums db)) then Inr db
          else Inr (db\<lparr>gallery_albums := filter (\<lambda>a. alb_id a \<noteq> albumId) (gallery_albums db),
                       gallery_images :=
                         filter (\<lambda>i. img_album_id i \<noteq> albumId) (gallery_images db)\<rparr>))"

definition update_gallery_albums ::
    "backend_error option \<Rightarrow> string \<Rightarrow> (gallery_albums_row \<Rightarrow> gallery_albums_row) \<Rightarrow> database
      \<Rightarrow> backend_error + database" where
  "update_gallery_albums fault albumId change db =
     (case fault of
        Some e \<Rightarrow> Inl e
      | None \<Rightarrow>
          Inr (db\<lparr>gallery_albums :=
                 map (\<lambda>a. if alb_id a = albumId then change a else a) (gallery_albums db)\<rparr>))"

definition insert_gallery_images ::
    "backend_error option \<Rightarrow> string \<Rightarrow> nat \<Rightarrow> string \<Rightarrow> string \<Rightarrow> database
      \<Rightarrow> backend_error + database" where
  "insert_gallery_images fault new_id now albumId url db =
     (case fault of
        Some e \<Rightarrow> Inl e
      | None \<Rightarrow>
          if new_id \<in> set (map img_id (gallery_images db)) then Inl Unique_violation
          else if albumId \<notin> set (map alb_id (gallery_albums db)) then Inl Foreign_key_violation
          else Inr (db\<lparr>gallery_images := gallery_images db @
                 [\<lparr>img_id = new_id, img_album_id = albumId, img_image_url = url,
                   img_caption = None, img_display_order = 0, img_created_at = now\<rparr>]\<rparr>))"

definition delete_gallery_images ::
    "backend_error option \<Rightarrow> string \<Rightarrow> database \<Rightarrow> backend_error + database" where
  "delete_gallery_images fault imageId db =
     (case fault of
        Some e \<Rightarrow> Inl e
      | None \<Rightarrow>
          Inr (db\<lparr>gallery_images := filter (\<lambda>i. img_id i \<noteq> imageId) (gallery_images db)\<rparr>))"

subsection \<open>The gallery administration page\<close>

text \<open>
  The mutation functions of the page; each throws the error of its statement. The
  object storage holding the image files is a separate service and is not part of the
  database: of an upload only its error and the public URL it yields are kept.
\<close>

definition createAlbumMutation :: "env \<Rightarrow> string \<Rightarrow> string \<Rightarrow> database \<Rightarrow> backend_error + database" where
  "createAlbumMutation e title description db =
     insert_gallery_albums (fault1 e) (fresh_id e) (db_now e) title
       (if description = [] then None else Some description) db"

definition deleteAlbumMutation :: "env \<Rightarrow> string \<Rightarrow> database \<Rightarrow> backend_error + database" where
  "deleteAlbumMutation e albumId db = delete_gallery_albums (fault1 e) albumId db"

definition toggleAlbumVisibility :: "env \<Rightarrow> string \<Rightarrow> bool \<Rightarrow> database \<Rightarrow> backend_error + database" where
  "toggleAlbumVisibility e albumId isActive db =
     update_gallery_albums (fault1 e) albumId (\<lambda>a. a\<lparr>alb_is_active := isActive\<rparr>) db"

definition deleteImageMutation :: "env \<Rightarrow> gallery_images_row \<Rightarrow> database \<Rightarrow> backend_error + database" where
  "deleteImageMutation e img db = delete_gallery_images (fault1 e) (img_id img) db"

text \<open>
  \<open>handleFileUpload\<close>: for each chosen file, upload it, insert its image row, and, when
  the selected album (as the page holds it) has no cover, make the file the cover,
  ignoring the result of that update. The first error ends the loop; the rows written
  before it stay.
\<close>

record file_upload =
  fu_uploadError :: "backend_error option"
  fu_publicUrl :: string
  fu_env :: env

fun upload_files ::
    "gallery_albums_row \<Rightarrow> file_upload list \<Rightarrow> database \<Rightarrow> database \<times> backend_error option" where
  "upload_files selectedAlbum [] db = (db, None)"
| "upload_files selectedAlbum (f # fs) db =
     (case fu_uploadError f of
        Some uploadError \<Rightarrow> (db, Some uploadError)
      | None \<Rightarrow>
          (case insert_gallery_images (fault1 (fu_env f)) (fresh_id (fu_env f)) (db_now (fu_env f))
                  (alb_id selectedAlbum) (fu_publicUrl f) db of
             Inl dbError \<Rightarrow> (db, Some dbError)
           | Inr db1 \<Rightarrow>
               upload_files selectedAlbum fs
                 (if alb_cover_image_url selectedAlbum \<in> {None, Some []} then
                    (case update_gallery_albums (fault2 (fu_env f)) (alb_id selectedAlbum)
                            (\<lambda>a. a\<lparr>alb_cover_image_url := Some (fu_publicUrl f)\<rparr>) db1 of
                       Inl _ \<Rightarrow> db1
                     | Inr db2 \<Rightarrow> db2)
                  else db1)))"

definition handleFileUpload ::
    "gallery_albums_row option \<Rightarrow> file_upload list option \<Rightarrow> database
      \<Rightarrow> database \<times> backend_error option" where
  "handleFileUpload selectedAlbum files db =
     (case files of
        None \<Rightarrow> (db, None)
      | Some fs \<Rightarrow>
          (case selectedAlbum of
             None \<Rightarrow> (db, None)
           | Some album \<Rightarrow> upload_files album fs db))"

subsection \<open>Reachable states of the relational backend\<close>

text \<open>
  Modelled from the spec: the auth provider's account creation is not in the source
  tree. The spec's user is an "identity issued by the auth provider" that "has exactly
  one Profile"; creating an account adds the identity and its profile.
\<close>

definition create_account :: "string \<Rightarrow> string \<Rightarrow> database \<Rightarrow> database" where
  "create_account uid email db =
     (if uid \<in> set (auth_users db) then db
      else db\<lparr>auth_users := auth_users db @ [uid],
              profiles := profiles db @ [\<lparr>prof_id = uid, prof_email = email\<rparr>]\<rparr>)"

text \<open>
  The backend starts with empty tables and changes by the accepted statements the
  pages issue: the sign-up form's insert of a pending request, the approval's role
  insert and request update (also the role insert of the add-admin dialog), the
  \<open>delete-user\<close> function, and the statements of the gallery administration.
\<close>

inductive reachable :: "database \<Rightarrow> bool" where
  reachable_initial:
    "reachable empty_database"
| reachable_create_account:
    "reachable db \<Longrightarrow> reachable (create_account uid email db)"
| reachable_insert_request:
    "reachable db \<Longrightarrow> insert_admin_requests fault i t uid email ''pending'' db = Inr db'
      \<Longrightarrow> reachable db'"
| reachable_update_request:
    "reachable db \<Longrightarrow> update_admin_requests fault rid ''approved'' t reviewer db = Inr db'
      \<Longrightarrow> reachable db'"
| reachable_insert_role:
    "reachable db \<Longrightarrow> insert_user_roles fault i t uid App_admin db = Inr db'
      \<Longrightarrow> reachable db'"
| reachable_delete_user:
    "reachable db \<Longrightarrow> delete_user fault uid db = Inr db' \<Longrightarrow> reachable db'"
| reachable_insert_album:
    "reachable db \<Longrightarrow> insert_gallery_albums fault i t title description db = Inr db'
      \<Longrightarrow> reachable db'"
| reachable_delete_album:
    "reachable db \<Longrightarrow> delete_gallery_albums fault albumId db = Inr db' \<Longrightarrow> reachable db'"
| reachable_album_visibility:
    "reachable db
      \<Longrightarrow> update_gallery_albums fault albumId (\<lambda>a. a\<lparr>alb_is_active := isActive\<rparr>) db = Inr db'
      \<Longrightarrow> reachable db'"
| reachable_album_cover:
    "reachable db
      \<Longrightarrow> update_gallery_albums fault albumId (\<lambda>a. a\<lparr>alb_cover_image_url := Some url\<rparr>) db = Inr db'
      \<Longrightarrow> reachable db'"
| reachable_insert_image:
    "reachable db \<Longrightarrow> insert_gallery_images fault i t albumId url db = Inr db'
      \<Longrightarrow> reachable db'"
| reachable_delete_image:
    "reachable db \<Longrightarrow> delete_gallery_images fault imageId db = Inr db' \<Longrightarrow> reachable db'"

section \<open>The document store: users, roles and admin requests\<close>

text \<open>
  The module of user and role management works on three collections of a document
  store, \<open>users\<close>, \<open>user_roles\<close> and \<open>admin_requests\<close>, every document of which
  has the user's id as its document id. A collection is the list of its documents with
  their ids, in ascending order of document id: the order in which the store hands the
  documents of a query without an \<open>orderBy\<close> to \<open>forEach\<close>. \<open>serverTimestamp()\<close>
  is the backend's clock at the write.
\<close>

datatype UserRole = Role_user | Role_admin | Role_super_admin

datatype RequestStatus = Pending | Approved | Rejected

text \<open>\<open>Partial<UserProfile>\<close>, the data a caller passes, and the stored profile.\<close>

record UserProfile_partial =
  pd_uid :: "string option"
  pd_email :: "string option"
  pd_displayName :: "string option"
  pd_photoURL :: "string option"
  pd_firstName :: "string option"
  pd_lastName :: "string option"
  pd_title :: "string option"
  pd_phoneNumber :: "string option"

record UserProfile =
  up_uid :: string
  up_email :: "string option"
  up_displayName :: "string option"
  up_photoURL :: "string option"
  up_firstName :: "string option"
  up_lastName :: "string option"
  up_title :: "string option"
  up_phoneNumber :: "string option"
  up_createdAt :: nat
  up_updatedAt :: nat

record UserRoleDoc =
  rd_userId :: string
  rd_role :: UserRole
  rd_assignedBy :: string
  rd_assignedAt :: nat

record AdminRequest =
  ar_userId :: string
  ar_email :: string
  ar_status :: RequestStatus
  ar_reviewedBy :: "string option"
  ar_createdAt :: nat
  ar_reviewedAt :: "nat option"

type_synonym 'a collection = "(string \<times> 'a) list"

record firestore =
  USERS_COLLECTION :: "UserProfile collection"
  USER_ROLES_COLLECTION :: "UserRoleDoc collection"
  ADMIN_REQUESTS_COLLECTION :: "AdminRequest collection"

definition empty_firestore :: firestore where
  "empty_firestore =
     \<lparr>USERS_COLLECTION = [], USER_ROLES_COLLECTION = [], ADMIN_REQUESTS_COLLECTION = []\<rparr>"

subsection \<open>The store's operations\<close>

text \<open>
  \<open>setDoc\<close> creates the document or replaces it entirely; \<open>updateDoc\<close> changes
  fields of an existing document and fails on a missing one; \<open>getDoc\<close> reads one
  document; \<open>getDocs\<close> of a \<open>where\<close> query yields the matching documents.
\<close>

fun put_doc :: "string \<Rightarrow> 'a \<Rightarrow> 'a collection \<Rightarrow> 'a collection" where
  "put_doc k v [] = [(k, v)]"
| "put_doc k v ((k', v') # c) =
     (if k = k' then (k, v) # c
      else if k < k' then (k, v) # (k', v') # c
      else (k', v') # put_doc k v c)"

definition setDoc ::
    "backend_error option \<Rightarrow> string \<Rightarrow> 'a \<Rightarrow> 'a collection \<Rightarrow> backend_error + 'a collection" where
  "setDoc fault k v c = (case fault of Some e \<Rightarrow> Inl e | None \<Rightarrow> Inr (put_doc k v c))"

definition updateDoc ::
    "backend_error option \<Rightarrow> string \<Rightarrow> ('a \<Rightarrow> 'a) \<Rightarrow> 'a collection \<Rightarrow> backend_error + 'a collection" where
  "updateDoc fault k change c =
     (case fault of
        Some e \<Rightarrow> Inl e
      | None \<Rightarrow>
          if k \<notin> set (map fst c) then Inl Not_found
          else Inr (map (\<lambda>(k', v). if k' = k then (k', change v) else (k', v)) c))"

definition getDoc :: "backend_error option \<Rightarrow> string \<Rightarrow> 'a collection \<Rightarrow> backend_error + 'a option" where
  "getDoc fault k c = (case fault of Some e \<Rightarrow> Inl e | None \<Rightarrow> Inr (map_of c k))"

definition getDocs_where ::
    "backend_error option \<Rightarrow> ('a \<Rightarrow> bool) \<Rightarrow> 'a collection \<Rightarrow> backend_error + 'a collection" where
  "getDocs_where fault p c =
     (case fault of Some e \<Rightarrow> Inl e | None \<Rightarrow> Inr (filter (\<lambda>(k, v). p v) c))"

subsection \<open>The exported functions\<close>

text \<open>
  Each function logs and rethrows the error of the call that failed. A function that
  writes returns the store after it together with its result: what was written before a
  later call failed stays written.
\<close>

definition getUserProfile :: "backend_error option \<Rightarrow> string \<Rightarrow> firestore \<Rightarrow> backend_error + UserProfile option" where
  "getUserProfile fault uid fs = getDoc fault uid (USERS_COLLECTION fs)"

definition getUserRole :: "backend_error option \<Rightarrow> string \<Rightarrow> firestore \<Rightarrow> backend_error + UserRole option" where
  "getUserRole fault userId fs =
     (case getDoc fault userId (USER_ROLES_COLLECTION fs) of
        Inl e \<Rightarrow> Inl e
      | Inr None \<Rightarrow> Inr None
      | Inr (Some d) \<Rightarrow> Inr (Some (rd_role d)))"

definition isUserAdmin :: "backend_error option \<Rightarrow> string \<Rightarrow> firestore \<Rightarrow> bool" where
  "isUserAdmin fault userId fs =
     (case getUserRole fault userId fs of
        Inl e \<Rightarrow> False
      | Inr r \<Rightarrow> r = Some Role_admin \<or> r = Some Role_super_admin)"

definition setUserRole ::
    "backend_error option \<Rightarrow> nat \<Rightarrow> string \<Rightarrow> UserRole \<Rightarrow> string \<Rightarrow> firestore
      \<Rightarrow> firestore \<times> (backend_error + unit)" where
  "setUserRole fault now userId r assignedBy fs =
     (case setDoc fault userId
             \<lparr>rd_userId = userId, rd_role = r, rd_assignedBy = assignedBy, rd_assignedAt = now\<rparr>
             (USER_ROLES_COLLECTION fs) of
        Inl e \<Rightarrow> (fs, Inl e)
      | Inr c \<Rightarrow> (fs\<lparr>USER_ROLES_COLLECTION := c\<rparr>, Inr ()))"

definition getAllAdmins :: "backend_error option \<Rightarrow> firestore \<Rightarrow> backend_error + UserRoleDoc list" where
  "getAllAdmins fault fs =
     (case getDocs_where fault (\<lambda>d. rd_role d \<in> set [Role_admin, Role_super_admin])
             (USER_ROLES_COLLECTION fs) of
        Inl e \<Rightarrow> Inl e
      | Inr ds \<Rightarrow> Inr (map snd ds))"

definition getUsersByRole :: "backend_error option \<Rightarrow> UserRole \<Rightarrow> firestore \<Rightarrow> backend_error + UserRoleDoc list" where
  "getUsersByRole fault r fs =
     (case getDocs_where fault (\<lambda>d. rd_role d = r) (USER_ROLES_COLLECTION fs) of
        Inl e \<Rightarrow> Inl e
      | Inr ds \<Rightarrow> Inr (map snd ds))"

text \<open>
  \<open>createUserProfile\<close>: the profile document is \<open>{ uid, ...data, createdAt, updatedAt }\<close>,
  so a \<open>uid\<close> inside \<open>data\<close> wins over the argument, and both timestamps are the
  server's. Then the administrators are read, and when there is none the new user is made
  \<open>super_admin\<close> by \<open>'system'\<close>. \<open>updateUserProfile\<close> overwrites the fields
  that \<open>data\<close> has and \<open>updatedAt\<close>.
\<close>

definition new_profile :: "string \<Rightarrow> UserProfile_partial \<Rightarrow> nat \<Rightarrow> UserProfile" where
  "new_profile uid dat now =
     \<lparr>up_uid = (case pd_uid dat of Some u \<Rightarrow> u | None \<Rightarrow> uid),
      up_email = pd_email dat, up_displayName = pd_displayName dat,
      up_photoURL = pd_photoURL dat, up_firstName = pd_firstName dat,
      up_lastName = pd_lastName dat, up_title = pd_title dat,
      up_phoneNumber = pd_phoneNumber dat, up_createdAt = now, up_updatedAt = now\<rparr>"

definition createUserProfile ::
    "env \<Rightarrow> string \<Rightarrow> UserProfile_partial \<Rightarrow> firestore \<Rightarrow> firestore \<times> (backend_error + unit)" where
  "createUserProfile e uid dat fs =
     (case setDoc (fault1 e) uid (new_profile uid dat (db_now e)) (USERS_COLLECTION fs) of
        Inl err \<Rightarrow> (fs, Inl err)
      | Inr c \<Rightarrow>
          (case getAllAdmins (fault2 e) (fs\<lparr>USERS_COLLECTION := c\<rparr>) of
             Inl err \<Rightarrow> (fs\<lparr>USERS_COLLECTION := c\<rparr>, Inl err)
           | Inr admins \<Rightarrow>
               if length admins = 0 then
                 setUserRole (fault3 e) (db_now2 e) uid Role_super_admin ''system''
                   (fs\<lparr>USERS_COLLECTION := c\<rparr>)
               else (fs\<lparr>USERS_COLLECTION := c\<rparr>, Inr ())))"

definition merge_profile :: "UserProfile_partial \<Rightarrow> nat \<Rightarrow> UserProfile \<Rightarrow> UserProfile" where
  "merge_profile dat now p =
     \<lparr>up_uid = (case pd_uid dat of Some u \<Rightarrow> u | None \<Rightarrow> up_uid p),
      up_email = (case pd_email dat of Some x \<Rightarrow> Some x | None \<Rightarrow> up_email p),
      up_displayName = (case pd_displayName dat of Some x \<Rightarrow> Some x | None \<Rightarrow> up_displayName p),
      up_photoURL = (case pd_photoURL dat of Some x \<Rightarrow> Some x | None \<Rightarrow> up_photoURL p),
      up_firstName = (case pd_firstName dat of Some x \<Rightarrow> Some x | None \<Rightarrow> up_firstName p),
      up_lastName = (case pd_lastName dat of Some x \<Rightarrow> Some x | None \<Rightarrow> up_lastName p),
      up_title = (case pd_title dat of Some x \<Rightarrow> Some x | None \<Rightarrow> up_title p),
      up_phoneNumber = (case pd_phoneNumber dat of Some x \<Rightarrow> Some x | None \<Rightarrow> up_phoneNumber p),
      up_createdAt = up_createdAt p, up_updatedAt = now\<rparr>"

definition updateUserProfile ::
    "backend_error option \<Rightarrow> nat \<Rightarrow> string \<Rightarrow> UserProfile_partial \<Rightarrow> firestore
      \<Rightarrow> firestore \<times> (backend_error + unit)" where
  "updateUserProfile fault now uid dat fs =
     (case updateDoc fault uid (merge_profile dat now) (USERS_COLLECTION fs) of
        Inl e \<Rightarrow> (fs, Inl e)
      | Inr c \<Rightarrow> (fs\<lparr>USERS_COLLECTION := c\<rparr>, Inr ()))"

definition createAdminRequest ::
    "backend_error option \<Rightarrow> nat \<Rightarrow> string \<Rightarrow> string \<Rightarrow> firestore
      \<Rightarrow> firestore \<times> (backend_error + unit)" where
  "createAdminRequest fault now userId email fs =
     (case setDoc fault userId
             \<lparr>ar_userId = userId, ar_email = email, ar_status = Pending, ar_reviewedBy = None,
              ar_createdAt = now, ar_reviewedAt = None\<rparr>
             (ADMIN_REQUESTS_COLLECTION fs) of
        Inl e \<Rightarrow> (fs, Inl e)
      | Inr c \<Rightarrow> (fs\<lparr>ADMIN_REQUESTS_COLLECTION := c\<rparr>, Inr ()))"

definition getAdminRequestStatus ::
    "backend_error option \<Rightarrow> string \<Rightarrow> firestore \<Rightarrow> backend_error + (string \<times> AdminRequest) option" where
  "getAdminRequestStatus fault userId fs =
     (case getDoc fault userId (ADMIN_REQUESTS_COLLECTION fs) of
        Inl e \<Rightarrow> Inl e
      | Inr None \<Rightarrow> Inr None
      | Inr (Some d) \<Rightarrow> Inr (Some (userId, d)))"

text \<open>
  \<open>getPendingAdminRequests\<close>: the query is \<open>where('status', '==', 'pending')\<close> and
  nothing else; each result is the document with its id.
\<close>

definition getPendingAdminRequests ::
    "backend_error option \<Rightarrow> firestore \<Rightarrow> backend_error + (string \<times> AdminRequest) list" where
  "getPendingAdminRequests fault fs =
     getDocs_where fault (\<lambda>d. ar_status d = Pending) (ADMIN_REQUESTS_COLLECTION fs)"

text \<open>
  \<open>updateAdminRequest\<close>: update status, reviewer and review time of the user's
  request; if the status is \<open>'approved'\<close>, then set the user's role to \<open>'admin'\<close>.
\<close>

definition updateAdminRequest ::
    "env \<Rightarrow> string \<Rightarrow> RequestStatus \<Rightarrow> string \<Rightarrow> firestore \<Rightarrow> firestore \<times> (backend_error + unit)" where
  "updateAdminRequest e userId st reviewedBy fs =
     (case updateDoc (fault1 e) userId
             (\<lambda>d. d\<lparr>ar_status := st, ar_reviewedBy := Some reviewedBy,
                    ar_reviewedAt := Some (db_now e)\<rparr>)
             (ADMIN_REQUESTS_COLLECTION fs) of
        Inl err \<Rightarrow> (fs, Inl err)
      | Inr c \<Rightarrow>
          if st = Approved then
            setUserRole (fault2 e) (db_now2 e) userId Role_admin reviewedBy
              (fs\<lparr>ADMIN_REQUESTS_COLLECTION := c\<rparr>)
          else (fs\<lparr>ADMIN_REQUESTS_COLLECTION := c\<rparr>, Inr ()))"

definition removeUserRole ::
    "backend_error option \<Rightarrow> string \<Rightarrow> firestore \<Rightarrow> firestore \<times> (backend_error + unit)" where
  "removeUserRole fault userId fs =
     (case updateDoc fault userId (\<lambda>d. d\<lparr>rd_role := Role_user\<rparr>) (USER_ROLES_COLLECTION fs) of
        Inl e \<Rightarrow> (fs, Inl e)
      | Inr c \<Rightarrow> (fs\<lparr>USER_ROLES_COLLECTION := c\<rparr>, Inr ()))"

definition approveAdminRequest ::
    "env \<Rightarrow> string \<Rightarrow> string \<Rightarrow> string \<Rightarrow> firestore \<Rightarrow> firestore \<times> (backend_error + unit)" where
  "approveAdminRequest e requestId userId reviewedBy fs =
     updateAdminRequest e userId Approved reviewedBy fs"

definition denyAdminRequest ::
    "env \<Rightarrow> string \<Rightarrow> string \<Rightarrow> string \<Rightarrow> firestore \<Rightarrow> firestore \<times> (backend_error + unit)" where
  "denyAdminRequest e requestId userId reviewedBy fs =
     updateAdminRequest e userId Rejected reviewedBy fs"

definition createSuperAdmin ::
    "backend_error option \<Rightarrow> nat \<Rightarrow> string \<Rightarrow> firestore \<Rightarrow> firestore \<times> (backend_error + unit)" where
  "createSuperAdmin fault now userId fs = setUserRole fault now userId Role_super_admin ''manual'' fs"

subsection \<open>Reachable states of the document store\<close>

text \<open>
  The store starts empty and changes by calls of the exported functions that write,
  with any arguments and any answers of the backend.
\<close>

inductive fs_reachable :: "firestore \<Rightarrow> bool" where
  fs_initial:
    "fs_reachable empty_firestore"
| fs_createUserProfile:
    "fs_reachable fs \<Longrightarrow> fs_reachable (fst (createUserProfile e uid dat fs))"
| fs_updateUserProfile:
    "fs_reachable fs \<Longrightarrow> fs_reachable (fst (updateUserProfile fault now uid dat fs))"
| fs_setUserRole:
    "fs_reachable fs \<Longrightarrow> fs_reachable (fst (setUserRole fault now userId r assignedBy fs))"
| fs_createAdminRequest:
    "fs_reachable fs \<Longrightarrow> fs_reachable (fst (createAdminRequest fault now userId email fs))"
| fs_updateAdminRequest:
    "fs_reachable fs \<Longrightarrow> fs_reachable (fst (updateAdminRequest e userId st reviewedBy fs))"
| fs_removeUserRole:
    "fs_reachable fs \<Longrightarrow> fs_reachable (fst (removeUserRole fault userId fs))"

section \<open>Public gallery page: lightbox navigation\<close>

text \<open>
  The gallery page keeps two pieces of state that matter here: \<open>lightboxIndex\<close>
  (\<open>number | null\<close>) and the query result \<open>albumImages\<close> (an array, or
  \<open>undefined\<close> while nothing is loaded). \<open>navigateLightbox\<close> computes the next
  value of \<open>lightboxIndex\<close>; a plain \<open>return\<close> leaves the state as it was.
  JavaScript numbers that hold array indices are modelled as \<open>int\<close>.
\<close>

datatype direction = Prev | Next

definition navigateLightbox :: "direction \<Rightarrow> int option \<Rightarrow> 'a list option \<Rightarrow> int option" where
  "navigateLightbox direction lightboxIndex albumImages =
     (case lightboxIndex of
        None \<Rightarrow> None
      | Some i \<Rightarrow>
          (case albumImages of
             None \<Rightarrow> Some i
           | Some imgs \<Rightarrow>
               (case direction of
                  Prev \<Rightarrow> Some (if i > 0 then i - 1 else int (length imgs) - 1)
                | Next \<Rightarrow> Some (if i < int (length imgs) - 1 then i + 1 else 0))))"

section \<open>Invariants\<close>

text \<open>
  The two integrity properties of the relational backend the pages rely on: no user has
  two request rows, and every image row names an album that exists.
\<close>

definition one_request_per_user :: "database \<Rightarrow> bool" where
  "one_request_per_user db = distinct (map req_user_id (admin_requests db))"

definition images_reference_albums :: "database \<Rightarrow> bool" where
  "images_reference_albums db =
     (set (map img_album_id (gallery_images db)) \<subseteq> set (map alb_id (gallery_albums db)))"

text \<open>
  The document store: a collection is in ascending order of document id (so no id occurs
  twice), and every admin request document carries in \<open>userId\<close> the id it is stored
  under.
\<close>

definition ordered_by_id :: "'a collection \<Rightarrow> bool" where
  "ordered_by_id c = sorted_wrt (<) (map fst c)"

definition keyed_by_userId :: "AdminRequest collection \<Rightarrow> bool" where
  "keyed_by_userId c = list_all (\<lambda>(k, d). ar_userId d = k) c"

definition fs_invariant :: "firestore \<Rightarrow> bool" where
  "fs_invariant fs =
     (ordered_by_id (USERS_COLLECTION fs) \<and> ordered_by_id (USER_ROLES_COLLECTION fs)
      \<and> ordered_by_id (ADMIN_REQUESTS_COLLECTION fs)
      \<and> keyed_by_userId (ADMIN_REQUESTS_COLLECTION fs))"

section \<open>Sample states\<close>

text \<open>
  Small concrete states on which the operations are run: an administrator
  \<open>admin-1\<close> and a user \<open>user-2\<close> whose request is pending, in each backend.
\<close>

definition sample_request :: admin_requests_row where
  "sample_request =
     \<lparr>req_id = ''req-2'', req_user_id = ''user-2'', req_email = ''u2@example.org'',
      req_status = ''pending'', req_reviewed_by = None, req_created_at = 5,
      req_reviewed_at = None\<rparr>"

definition sample_database :: database where
  "sample_database =
     \<lparr>auth_users = [''admin-1'', ''user-2''],
      profiles = [\<lparr>prof_id = ''admin-1'', prof_email = ''a1@example.org''\<rparr>,
                  \<lparr>prof_id = ''user-2'', prof_email = ''u2@example.org''\<rparr>],
      user_roles = [\<lparr>ur_id = ''role-1'', ur_user_id = ''admin-1'', ur_role = App_admin,
                      ur_created_at = 1\<rparr>],
      admin_requests = [sample_request],
      gallery_albums = [], gallery_images = []\<rparr>"

definition sample_env :: env where
  "sample_env =
     \<lparr>fresh_id = ''id-9'', db_now = 10, db_now2 = 11, client_now = 12,
      fault1 = None, fault2 = None, fault3 = None\<rparr>"

definition sample_firestore :: firestore where
  "sample_firestore =
     \<lparr>USERS_COLLECTION =
        [(''user-2'', new_profile ''user-2''
            \<lparr>pd_uid = None, pd_email = Some ''u2@example.org'', pd_displayName = None,
             pd_photoURL = None, pd_firstName = None, pd_lastName = None, pd_title = None,
             pd_phoneNumber = None\<rparr> 4)],
      USER_ROLES_COLLECTION =
        [(''admin-1'', \<lparr>rd_userId = ''admin-1'', rd_role = Role_super_admin,
                         rd_assignedBy = ''system'', rd_assignedAt = 1\<rparr>)],
      ADMIN_REQUESTS_COLLECTION =
        [(''user-2'', \<lparr>ar_userId = ''user-2'', ar_email = ''u2@example.org'',
                        ar_status = Pending, ar_reviewedBy = None, ar_createdAt = 5,
                        ar_reviewedAt = None\<rparr>)]\<rparr>"

definition sample_signed_up :: database where
  "sample_signed_up = sample_database\<lparr>user_roles := []\<rparr>"

definition sample_gallery :: database where
  "sample_gallery =
     empty_database
       \<lparr>gallery_albums :=
          [\<lparr>alb_id = ''alb-1'', alb_title = ''Sunday service'', alb_description = None,
            alb_cover_image_url = None, alb_is_active = True, alb_display_order = 0,
            alb_created_at = 1\<rparr>],
        gallery_images :=
          [\<lparr>img_id = ''img-1'', img_album_id = ''alb-1'', img_image_url = ''https://cdn/1.jpg'',
            img_caption = None, img_display_order = 0, img_created_at = 2\<rparr>]\<rparr>"

text \<open>
  The first profile ever created; a sign-up form and an auth provider that accepts the
  sign-up under the new identity \<open>user-3\<close>; a document store in which three users
  asked for access one after the other (\<open>user-b\<close>, then \<open>user-a\<close>, then
  \<open>user-c\<close>); a request table with two pending requests and an approved one.
  \<open>createdAt_of_result\<close> reads the creation times off a query result, in the
  result's order.
\<close>

definition sample_profile_data :: UserProfile_partial where
  "sample_profile_data =
     \<lparr>pd_uid = None, pd_email = Some ''first@example.org'', pd_displayName = Some ''First'',
      pd_photoURL = None, pd_firstName = None, pd_lastName = None, pd_title = None,
      pd_phoneNumber = None\<rparr>"

definition sample_form :: signUp_form where
  "sample_form =
     \<lparr>form_email = ''  New@Example.org '', form_password = ''secret1'',
      form_confirmPassword = ''secret1''\<rparr>"

definition sample_signUp :: "string \<Rightarrow> string \<Rightarrow> database \<Rightarrow> signUp_result \<times> database" where
  "sample_signUp email password db =
     (\<lparr>su_error = None, su_userId = Some ''user-3''\<rparr>, create_account ''user-3'' email db)"

definition createdAt_of_result :: "backend_error + AdminRequest collection \<Rightarrow> nat list" where
  "createdAt_of_result res =
     (case res of Inl e \<Rightarrow> [] | Inr ds \<Rightarrow> map (\<lambda>(k, d). ar_createdAt d) ds)"

definition sample_three_requests :: firestore where
  "sample_three_requests =
     fst (createAdminRequest None 3 ''user-c'' ''c@example.org''
       (fst (createAdminRequest None 2 ''user-a'' ''a@example.org''
         (fst (createAdminRequest None 1 ''user-b'' ''b@example.org'' empty_firestore)))))"

definition sample_requests_database :: database where
  "sample_requests_database =
     sample_database
       \<lparr>admin_requests :=
          [sample_request,
           \<lparr>req_id = ''req-4'', req_user_id = ''user-4'', req_email = ''u4@example.org'',
            req_status = ''approved'', req_reviewed_by = Some ''admin-1'', req_created_at = 7,
            req_reviewed_at = Some 8\<rparr>,
           \<lparr>req_id = ''req-5'', req_user_id = ''user-5'', req_email = ''u5@example.org'',
            req_status = ''pending'', req_reviewed_by = None, req_created_at = 9,
            req_reviewed_at = None\<rparr>]\<rparr>"

section \<open>Properties\<close>

text \<open>
  Claim C10. For a non-empty image list of length \<open>n\<close> and a current index in
  \<open>[0, n-1]\<close>, navigating in either direction yields an index in \<open>[0, n-1]\<close>;
  \<open>next\<close> from the last image gives index 0 and \<open>prev\<close> from index 0 gives
  \<open>n-1\<close>.
\<close>

theorem navigateLightbox_in_range:
  assumes "imgs \<noteq> []" and "0 \<le> i" and "i \<le> int (length imgs) - 1"
  shows "(\<exists>j. navigateLightbox d (Some i) (Some imgs) = Some j \<and> 0 \<le> j \<and> j \<le> int (length imgs) - 1)
       \<and> navigateLightbox Next (Some (int (length imgs) - 1)) (Some imgs) = Some 0
       \<and> navigateLightbox Prev (Some 0) (Some imgs) = Some (int (length imgs) - 1)"
proof -
  have n: "0 < int (length imgs)" using assms(1) by simp
  show ?thesis
  proof (cases d)
    case Prev
    then show ?thesis using assms n by (simp add: navigateLightbox_def)
  next
    case Next
    then show ?thesis using assms n by (auto simp add: navigateLightbox_def)
  qed
qed

theorem navigateLightbox_in_range_witness:
  "navigateLightbox Next (Some 2) (Some [''a'', ''b'', ''c'']) = Some 0
   \<and> navigateLightbox Prev (Some 0) (Some [''a'', ''b'', ''c'']) = Some 2
   \<and> (\<exists>j. navigateLightbox Next (Some 1) (Some [''a'', ''b'', ''c'']) = Some j \<and> 0 \<le> j \<and> j \<le> 2)"
  using navigateLightbox_in_range [of "[''a'', ''b'', ''c'']" 1 Next]
  by simp


subsection \<open>Facts about the backend calls\<close>

lemma insert_user_roles_Inr:
  "insert_user_roles fault i t uid r db = Inr db' \<longleftrightarrow>
     fault = None \<and> db' = db\<lparr>user_roles := user_roles db @
        [\<lparr>ur_id = i, ur_user_id = uid, ur_role = r, ur_created_at = t\<rparr>]\<rparr>"
  by (auto simp: insert_user_roles_def split: option.splits)

lemma map_if_absent:
  "k \<notin> set (map f xs) \<Longrightarrow> map (\<lambda>r. if f r = k then g r else r) xs = xs"
  by (induction xs) auto

lemma update_admin_requests_Inr:
  "update_admin_requests fault rid st t reviewer db = Inr db' \<Longrightarrow>
     db' = db\<lparr>admin_requests :=
              map (\<lambda>r. if req_id r = rid then review_row st t reviewer r else r) (admin_requests db)\<rparr>"
proof -
  assume a: "update_admin_requests fault rid st t reviewer db = Inr db'"
  show ?thesis using a map_if_absent [of rid req_id "admin_requests db" "review_row st t reviewer"]
    by (auto simp: update_admin_requests_def split: option.splits if_splits)
qed

lemma review_row_simps:
  "req_id (review_row st t reviewer r) = req_id r"
  "req_user_id (review_row st t reviewer r) = req_user_id r"
  "req_status (review_row st t reviewer r) = st"
  "req_reviewed_at (review_row st t reviewer r) = Some t"
  "req_reviewed_by (review_row st t (Some u) r) = Some u"
  by (simp_all add: review_row_def)

lemma reviewed_rows_status:
  assumes "r' \<in> set (map (\<lambda>r. if req_id r = rid then review_row st t reviewer r else r) rows)"
    and "req_id r' = rid"
  shows "req_status r' = st"
proof -
  from assms(1) obtain r0 where r0: "r0 \<in> set rows"
    and r': "r' = (if req_id r0 = rid then review_row st t reviewer r0 else r0)"
    by auto
  show ?thesis
  proof (cases "req_id r0 = rid")
    case True
    then show ?thesis using r' by (simp add: review_row_simps)
  next
    case False
    then show ?thesis using r' assms(2) by simp
  qed
qed

lemma map_of_put_doc: "map_of (put_doc k v c) = (map_of c)(k \<mapsto> v)"
  by (induction c) (auto simp: fun_upd_twist)

lemma map_of_change:
  "map_of (map (\<lambda>(k', v). if k' = k then (k', f v) else (k', v)) c) j =
     (if j = k then map_option f (map_of c k) else map_of c j)"
  by (induction c) auto

lemma setDoc_Inr: "setDoc fault k v c = Inr c' \<longleftrightarrow> fault = None \<and> c' = put_doc k v c"
  by (auto simp: setDoc_def split: option.splits)

lemma updateDoc_Inr:
  "updateDoc fault k f c = Inr c' \<longleftrightarrow>
     fault = None \<and> k \<in> set (map fst c) \<and> c' = map (\<lambda>(k', v). if k' = k then (k', f v) else (k', v)) c"
  by (auto simp: updateDoc_def split: option.splits)

lemma setUserRole_Inr:
  "setUserRole fault now userId r by fs = (fs', Inr ()) \<longleftrightarrow>
     fault = None \<and> fs' = fs\<lparr>USER_ROLES_COLLECTION :=
        put_doc userId \<lparr>rd_userId = userId, rd_role = r, rd_assignedBy = by, rd_assignedAt = now\<rparr>
          (USER_ROLES_COLLECTION fs)\<rparr>"
  by (auto simp: setUserRole_def setDoc_def split: option.splits)

lemma handleApproveRequest_success:
  assumes "r \<in> set (admin_requests db)" and "req_id r = requestId"
    and "out_toast (handleApproveRequest user e requestId userId email db) = Toast_success msg"
  shows "out_db (handleApproveRequest user e requestId userId email db) =
           db\<lparr>user_roles := user_roles db @
                  [\<lparr>ur_id = fresh_id e, ur_user_id = userId, ur_role = App_admin,
                    ur_created_at = db_now e\<rparr>],
                admin_requests :=
                  map (\<lambda>r. if req_id r = requestId
                            then review_row ''approved'' (client_now e) user r else r)
                    (admin_requests db)\<rparr>"
proof (cases "insert_user_roles (fault1 e) (fresh_id e) (db_now e) userId App_admin db")
  case (Inl a)
  then show ?thesis using assms(3) by (simp add: handleApproveRequest_def)
next
  case (Inr db1)
  note i = Inr
  show ?thesis
  proof (cases "update_admin_requests (fault2 e) requestId ''approved'' (client_now e) user db1")
    case (Inl a)
    then show ?thesis using assms(3) i by (simp add: handleApproveRequest_def)
  next
    case (Inr db2)
    have "db2 = db1\<lparr>admin_requests :=
              map (\<lambda>r. if req_id r = requestId then review_row ''approved'' (client_now e) user r else r)
                (admin_requests db1)\<rparr>"
      using Inr by (rule update_admin_requests_Inr)
    moreover have "db1 = db\<lparr>user_roles := user_roles db @
        [\<lparr>ur_id = fresh_id e, ur_user_id = userId, ur_role = App_admin, ur_created_at = db_now e\<rparr>]\<rparr>"
      using i by (simp add: insert_user_roles_Inr)
    ultimately show ?thesis using i Inr by (simp add: handleApproveRequest_def)
  qed
qed

lemma updateAdminRequest_approved:
  assumes "map_of (ADMIN_REQUESTS_COLLECTION fs) userId = Some d"
    and "updateAdminRequest e userId Approved reviewedBy fs = (fs', Inr ())"
  shows "map_of (USER_ROLES_COLLECTION fs') userId =
           Some \<lparr>rd_userId = userId, rd_role = Role_admin, rd_assignedBy = reviewedBy,
                 rd_assignedAt = db_now2 e\<rparr>
       \<and> map_of (ADMIN_REQUESTS_COLLECTION fs') userId =
           Some (d\<lparr>ar_status := Approved, ar_reviewedBy := Some reviewedBy,
                   ar_reviewedAt := Some (db_now e)\<rparr>)
       \<and> isUserAdmin None userId fs'"
proof (cases "updateDoc (fault1 e) userId
             (\<lambda>d. d\<lparr>ar_status := Approved, ar_reviewedBy := Some reviewedBy,
                    ar_reviewedAt := Some (db_now e)\<rparr>)
             (ADMIN_REQUESTS_COLLECTION fs)")
  case (Inl a)
  then show ?thesis using assms(2) by (simp add: updateAdminRequest_def)
next
  case (Inr c)
  then have c: "c = map (\<lambda>(k', v). if k' = userId then (k', v\<lparr>ar_status := Approved, ar_reviewedBy := Some reviewedBy,
                    ar_reviewedAt := Some (db_now e)\<rparr>) else (k', v)) (ADMIN_REQUESTS_COLLECTION fs)"
    by (simp add: updateDoc_Inr)
  have "setUserRole (fault2 e) (db_now2 e) userId Role_admin reviewedBy
              (fs\<lparr>ADMIN_REQUESTS_COLLECTION := c\<rparr>) = (fs', Inr ())"
    using assms(2) Inr by (simp add: updateAdminRequest_def)
  then have fs': "fs' = fs\<lparr>ADMIN_REQUESTS_COLLECTION := c, USER_ROLES_COLLECTION :=
        put_doc userId \<lparr>rd_userId = userId, rd_role = Role_admin, rd_assignedBy = reviewedBy, rd_assignedAt = db_now2 e\<rparr>
          (USER_ROLES_COLLECTION fs)\<rparr>"
    by (simp add: setUserRole_Inr)
  show ?thesis using assms(1)
    by (simp add: fs' c map_of_put_doc map_of_change isUserAdmin_def getUserRole_def getDoc_def)
qed

lemma insert_admin_requests_Inr:
  assumes "insert_admin_requests fault i t uid email st db = Inr db'"
  shows "db' = db\<lparr>admin_requests := admin_requests db @
                 [\<lparr>req_id = i, req_user_id = uid, req_email = email, req_status = st,
                   req_reviewed_by = None, req_created_at = t, req_reviewed_at = None\<rparr>]\<rparr>"
    and "uid \<notin> set (map req_user_id (admin_requests db))"
    and "i \<notin> set (map req_id (admin_requests db))"
    and "uid \<in> set (auth_users db)"
  using assms by (auto simp: insert_admin_requests_def split: option.splits if_splits)

lemma delete_user_Inr:
  "delete_user fault uid db = Inr db' \<longleftrightarrow>
     fault = None \<and>
     db' = db\<lparr>auth_users := removeAll uid (auth_users db),
              profiles := filter (\<lambda>p. prof_id p \<noteq> uid) (profiles db),
              user_roles := filter (\<lambda>r. ur_user_id r \<noteq> uid) (user_roles db),
              admin_requests :=
                map (forget_reviewer uid) (filter (\<lambda>r. req_user_id r \<noteq> uid) (admin_requests db))\<rparr>"
  by (auto simp: delete_user_def split: option.splits)

lemma req_user_id_review_row: "req_user_id \<circ> (\<lambda>r. if req_id r = rid then review_row st t reviewer r else r) = req_user_id"
  by (rule ext) (simp add: review_row_def)

lemma req_user_id_forget_reviewer: "req_user_id \<circ> forget_reviewer uid = req_user_id"
  by (rule ext) (simp add: forget_reviewer_def)

lemma one_request_insert:
  "one_request_per_user db \<Longrightarrow> insert_admin_requests fault i t uid email st db = Inr db'
     \<Longrightarrow> one_request_per_user db'"
  using insert_admin_requests_Inr(1,2) [of fault i t uid email st db db']
  by (simp add: one_request_per_user_def)

lemma one_request_update:
  "one_request_per_user db \<Longrightarrow> update_admin_requests fault rid st t reviewer db = Inr db'
     \<Longrightarrow> one_request_per_user db'"
  using update_admin_requests_Inr [of fault rid st t reviewer db db']
  by (simp add: one_request_per_user_def req_user_id_review_row)

lemma one_request_delete_user:
  "one_request_per_user db \<Longrightarrow> delete_user fault uid db = Inr db' \<Longrightarrow> one_request_per_user db'"
  by (simp add: one_request_per_user_def delete_user_Inr req_user_id_forget_reviewer
        distinct_map_filter)

lemma insert_user_roles_other:
  "insert_user_roles fault i t uid r db = Inr db' \<Longrightarrow>
     admin_requests db' = admin_requests db \<and> gallery_albums db' = gallery_albums db
     \<and> gallery_images db' = gallery_images db \<and> auth_users db' = auth_users db"
  by (auto simp: insert_user_roles_Inr)

lemma insert_gallery_albums_Inr:
  assumes "insert_gallery_albums fault i t title description db = Inr db'"
  shows "db' = db\<lparr>gallery_albums := gallery_albums db @
                 [\<lparr>alb_id = i, alb_title = title, alb_description = description,
                   alb_cover_image_url = None, alb_is_active = True, alb_display_order = 0,
                   alb_created_at = t\<rparr>]\<rparr>"
  using assms by (auto simp: insert_gallery_albums_def split: option.splits if_splits)

lemma delete_gallery_albums_Inr:
  assumes "delete_gallery_albums fault albumId db = Inr db'"
  shows "admin_requests db' = admin_requests db"
    and "gallery_albums db' = filter (\<lambda>a. alb_id a \<noteq> albumId) (gallery_albums db)"
    and "albumId \<in> set (map alb_id (gallery_albums db)) \<Longrightarrow>
           gallery_images db' = filter (\<lambda>i. img_album_id i \<noteq> albumId) (gallery_images db)"
    and "albumId \<notin> set (map alb_id (gallery_albums db)) \<Longrightarrow> db' = db"
proof -
  have "albumId \<notin> set (map alb_id (gallery_albums db)) \<Longrightarrow>
          filter (\<lambda>a. alb_id a \<noteq> albumId) (gallery_albums db) = gallery_albums db"
    by (induction "gallery_albums db") (auto simp: filter_id_conv)
  then show "gallery_albums db' = filter (\<lambda>a. alb_id a \<noteq> albumId) (gallery_albums db)"
    using assms by (auto simp: delete_gallery_albums_def split: option.splits if_splits)
  show "admin_requests db' = admin_requests db"
    using assms by (auto simp: delete_gallery_albums_def split: option.splits if_splits)
  show "albumId \<in> set (map alb_id (gallery_albums db)) \<Longrightarrow>
           gallery_images db' = filter (\<lambda>i. img_album_id i \<noteq> albumId) (gallery_images db)"
    using assms by (auto simp: delete_gallery_albums_def split: option.splits if_splits)
  show "albumId \<notin> set (map alb_id (gallery_albums db)) \<Longrightarrow> db' = db"
    using assms by (auto simp: delete_gallery_albums_def split: option.splits if_splits)
qed

lemma update_gallery_albums_Inr:
  "update_gallery_albums fault albumId change db = Inr db' \<longleftrightarrow>
     fault = None \<and>
     db' = db\<lparr>gallery_albums :=
                 map (\<lambda>a. if alb_id a = albumId then change a else a) (gallery_albums db)\<rparr>"
  by (auto simp: update_gallery_albums_def split: option.splits)

lemma insert_gallery_images_Inr:
  assumes "insert_gallery_images fault i t albumId url db = Inr db'"
  shows "db' = db\<lparr>gallery_images := gallery_images db @
                 [\<lparr>img_id = i, img_album_id = albumId, img_image_url = url,
                   img_caption = None, img_display_order = 0, img_created_at = t\<rparr>]\<rparr>"
    and "albumId \<in> set (map alb_id (gallery_albums db))"
  using assms by (auto simp: insert_gallery_images_def split: option.splits if_splits)

lemma delete_gallery_images_Inr:
  "delete_gallery_images fault imageId db = Inr db' \<longleftrightarrow>
     fault = None \<and>
     db' = db\<lparr>gallery_images := filter (\<lambda>i. img_id i \<noteq> imageId) (gallery_images db)\<rparr>"
  by (auto simp: delete_gallery_images_def split: option.splits)

subsection \<open>Invariants of the reachable states\<close>

lemma reachable_one_request: "reachable db \<Longrightarrow> one_request_per_user db"
proof (induction rule: reachable.induct)
  case reachable_initial
  show ?case by (simp add: one_request_per_user_def empty_database_def)
next
  case (reachable_create_account db uid email)
  then show ?case by (simp add: one_request_per_user_def create_account_def)
next
  case (reachable_insert_request db fault i t uid email db')
  then show ?case using one_request_insert by blast
next
  case (reachable_update_request db fault rid t reviewer db')
  then show ?case using one_request_update by blast
next
  case (reachable_insert_role db fault i t uid db')
  then show ?case using insert_user_roles_other [of fault i t uid App_admin db db']
    by (simp add: one_request_per_user_def)
next
  case (reachable_delete_user db fault uid db')
  then show ?case using one_request_delete_user by blast
next
  case (reachable_insert_album db fault i t title description db')
  then show ?case using insert_gallery_albums_Inr [of fault i t title description db db']
    by (simp add: one_request_per_user_def)
next
  case (reachable_delete_album db fault albumId db')
  then show ?case using delete_gallery_albums_Inr(1) [of fault albumId db db']
    by (simp add: one_request_per_user_def)
next
  case (reachable_album_visibility db fault albumId isActive db')
  then show ?case by (simp add: one_request_per_user_def update_gallery_albums_Inr)
next
  case (reachable_album_cover db fault albumId url db')
  then show ?case by (simp add: one_request_per_user_def update_gallery_albums_Inr)
next
  case (reachable_insert_image db fault i t albumId url db')
  then show ?case using insert_gallery_images_Inr(1) [of fault i t albumId url db db']
    by (simp add: one_request_per_user_def)
next
  case (reachable_delete_image db fault imageId db')
  then show ?case by (simp add: one_request_per_user_def delete_gallery_images_Inr)
qed

lemma alb_id_change:
  "(\<And>a. alb_id (change a) = alb_id a) \<Longrightarrow>
     map alb_id (map (\<lambda>a. if alb_id a = albumId then change a else a) albums) = map alb_id albums"
  by (induction albums) auto

lemma images_delete_album:
  assumes "images_reference_albums db" and "delete_gallery_albums fault albumId db = Inr db'"
  shows "images_reference_albums db'"
proof (cases "albumId \<in> set (map alb_id (gallery_albums db))")
  case True
  have a: "gallery_albums db' = filter (\<lambda>a. alb_id a \<noteq> albumId) (gallery_albums db)"
    using assms(2) by (rule delete_gallery_albums_Inr(2))
  have i: "gallery_images db' = filter (\<lambda>i. img_album_id i \<noteq> albumId) (gallery_images db)"
    using assms(2) True by (rule delete_gallery_albums_Inr(3))
  show ?thesis using assms(1) unfolding images_reference_albums_def a i by auto
next
  case False
  then have "db' = db" using assms(2) by (rule delete_gallery_albums_Inr(4)[rotated])
  then show ?thesis using assms(1) by simp
qed

lemma reachable_images_reference_albums: "reachable db \<Longrightarrow> images_reference_albums db"
proof (induction rule: reachable.induct)
  case reachable_initial
  show ?case by (simp add: images_reference_albums_def empty_database_def)
next
  case (reachable_create_account db uid email)
  then show ?case by (simp add: images_reference_albums_def create_account_def)
next
  case (reachable_insert_request db fault i t uid email db')
  then show ?case using insert_admin_requests_Inr(1) [of fault i t uid email "''pending''" db db']
    by (simp add: images_reference_albums_def)
next
  case (reachable_update_request db fault rid t reviewer db')
  then show ?case using update_admin_requests_Inr [of fault rid "''approved''" t reviewer db db']
    by (simp add: images_reference_albums_def)
next
  case (reachable_insert_role db fault i t uid db')
  then show ?case using insert_user_roles_other [of fault i t uid App_admin db db']
    by (simp add: images_reference_albums_def)
next
  case (reachable_delete_user db fault uid db')
  then show ?case by (simp add: images_reference_albums_def delete_user_Inr)
next
  case (reachable_insert_album db fault i t title description db')
  then show ?case using insert_gallery_albums_Inr [of fault i t title description db db']
    by (auto simp add: images_reference_albums_def)
next
  case (reachable_delete_album db fault albumId db')
  then show ?case using images_delete_album by blast
next
  case (reachable_album_visibility db fault albumId isActive db')
  then show ?case
    using alb_id_change [of "\<lambda>a. a\<lparr>alb_is_active := isActive\<rparr>" albumId "gallery_albums db"]
    by (simp add: images_reference_albums_def update_gallery_albums_Inr)
next
  case (reachable_album_cover db fault albumId url db')
  then show ?case
    using alb_id_change [of "\<lambda>a. a\<lparr>alb_cover_image_url := Some url\<rparr>" albumId "gallery_albums db"]
    by (simp add: images_reference_albums_def update_gallery_albums_Inr)
next
  case (reachable_insert_image db fault i t albumId url db')
  then show ?case using insert_gallery_images_Inr [of fault i t albumId url db db']
    by (simp add: images_reference_albums_def)
next
  case (reachable_delete_image db fault imageId db')
  then show ?case by (auto simp add: images_reference_albums_def delete_gallery_images_Inr)
qed

text \<open>
  The handlers and mutation functions of the pages lead from reachable states to
  reachable states: what they send are the statements of the relation \<open>reachable\<close>.
  The sign-up handler does so for every \<open>signUp\<close> that does.
\<close>

lemma handleApproveRequest_reachable:
  assumes "reachable db"
  shows "reachable (out_db (handleApproveRequest user e requestId userId email db))"
proof (cases "insert_user_roles (fault1 e) (fresh_id e) (db_now e) userId App_admin db")
  case (Inl err)
  then show ?thesis using assms by (simp add: handleApproveRequest_def)
next
  case (Inr db1)
  then have r1: "reachable db1" using assms reachable_insert_role by blast
  show ?thesis
  proof (cases "update_admin_requests (fault2 e) requestId ''approved'' (client_now e) user db1")
    case (Inl err)
    then show ?thesis using Inr r1 by (simp add: handleApproveRequest_def)
  next
    case db2: (Inr db2)
    then have "reachable db2" using r1 reachable_update_request by blast
    then show ?thesis using Inr db2 by (simp add: handleApproveRequest_def)
  qed
qed

lemma handleRejectRequest_reachable:
  assumes "reachable db"
  shows "reachable (out_db (handleRejectRequest e requestId userId email db))"
proof (cases "delete_user (fault1 e) userId db")
  case (Inl err)
  then show ?thesis using assms by (simp add: handleRejectRequest_def)
next
  case (Inr db1)
  then have "reachable db1" using assms reachable_delete_user by blast
  then show ?thesis using Inr by (simp add: handleRejectRequest_def)
qed

lemma handleRemoveAdmin_reachable:
  assumes "reachable db"
  shows "reachable (out_db (handleRemoveAdmin user e adminId adminUserId db))"
proof (cases "delete_user (fault1 e) adminUserId db")
  case (Inl err)
  then show ?thesis using assms by (simp add: handleRemoveAdmin_def)
next
  case (Inr db1)
  then have "reachable db1" using assms reachable_delete_user by blast
  then show ?thesis using Inr assms by (simp add: handleRemoveAdmin_def)
qed

lemma handleSignUp_reachable:
  assumes "reachable db"
    and "\<And>email password d. reachable d \<Longrightarrow> reachable (snd (signUp email password d))"
  shows "reachable (out_db (handleSignUp is_email toLowerCase signUp e f db))"
proof (cases "signUpSchema_success is_email f")
  case False
  then show ?thesis using assms(1) by (simp add: handleSignUp_def)
next
  case True
  obtain res db1 where su: "signUp (trim (form_email f)) (form_password f) db = (res, db1)"
    by (cases "signUp (trim (form_email f)) (form_password f) db")
  have r1: "reachable db1" using assms(2) [OF assms(1), of "trim (form_email f)" "form_password f"]
    by (simp add: su)
  show ?thesis
  proof (cases "su_error res")
    case (Some msg)
    then show ?thesis using True su r1 by (simp add: handleSignUp_def)
  next
    case None
    show ?thesis
    proof (cases "su_userId res")
      case no: None
      then show ?thesis using True su r1 None by (simp add: handleSignUp_def)
    next
      case (Some userId)
      show ?thesis
      proof (cases "insert_admin_requests (fault1 e) (fresh_id e) (db_now e) userId
                      (toLowerCase (trim (form_email f))) ''pending'' db1")
        case (Inl err)
        then show ?thesis using True su r1 None Some by (simp add: handleSignUp_def)
      next
        case (Inr db2)
        then have "reachable db2" using r1 reachable_insert_request by blast
        then show ?thesis using True su r1 None Some Inr by (simp add: handleSignUp_def)
      qed
    qed
  qed
qed

lemma gallery_mutations_reachable:
  assumes "reachable db"
  shows "createAlbumMutation e title description db = Inr db' \<Longrightarrow> reachable db'"
    and "deleteAlbumMutation e albumId db = Inr db' \<Longrightarrow> reachable db'"
    and "toggleAlbumVisibility e albumId isActive db = Inr db' \<Longrightarrow> reachable db'"
    and "deleteImageMutation e img db = Inr db' \<Longrightarrow> reachable db'"
  using assms reachable_insert_album reachable_delete_album reachable_album_visibility
    reachable_delete_image
  unfolding createAlbumMutation_def deleteAlbumMutation_def toggleAlbumVisibility_def
    deleteImageMutation_def
  by blast+

lemma upload_files_reachable:
  "reachable db \<Longrightarrow> reachable (fst (upload_files selectedAlbum files db))"
proof (induction files arbitrary: db)
  case Nil
  then show ?case by simp
next
  case (Cons f files)
  show ?case
  proof (cases "fu_uploadError f")
    case (Some err)
    then show ?thesis using Cons.prems by simp
  next
    case None
    show ?thesis
    proof (cases "insert_gallery_images (fault1 (fu_env f)) (fresh_id (fu_env f)) (db_now (fu_env f))
                  (alb_id selectedAlbum) (fu_publicUrl f) db")
      case (Inl err)
      then show ?thesis using None Cons.prems by simp
    next
      case (Inr db1)
      then have r1: "reachable db1" using Cons.prems reachable_insert_image by blast
      have "reachable (if alb_cover_image_url selectedAlbum \<in> {None, Some []} then
                    (case update_gallery_albums (fault2 (fu_env f)) (alb_id selectedAlbum)
                            (\<lambda>a. a\<lparr>alb_cover_image_url := Some (fu_publicUrl f)\<rparr>) db1 of
                       Inl _ \<Rightarrow> db1
                     | Inr db2 \<Rightarrow> db2)
                  else db1)"
        using r1 reachable_album_cover by (auto split: sum.splits)
      then show ?thesis using None Inr Cons.IH by simp
    qed
  qed
qed

lemma handleFileUpload_reachable:
  "reachable db \<Longrightarrow> reachable (fst (handleFileUpload selectedAlbum files db))"
  by (simp add: handleFileUpload_def upload_files_reachable split: option.splits)

subsection \<open>Invariant of the document store\<close>

lemma keys_put_doc: "fst ` set (put_doc k v c) = insert k (fst ` set c)"
  by (induction k v c rule: put_doc.induct) (auto simp: image_iff)

lemma ordered_put_doc: "ordered_by_id c \<Longrightarrow> ordered_by_id (put_doc k v c)"
proof (induction c)
  case Nil
  then show ?case by (simp add: ordered_by_id_def)
next
  case (Cons p c)
  obtain k' v' where p: "p = (k', v')" by (cases p)
  have tail: "ordered_by_id c" and less: "\<forall>j \<in> set (map fst c). k' < j"
    using Cons.prems by (simp_all add: ordered_by_id_def p)
  show ?case
  proof (cases "k = k'")
    case True
    then show ?thesis using Cons.prems by (simp add: ordered_by_id_def p)
  next
    case False
    show ?thesis
    proof (cases "k < k'")
      case True
      then have "\<forall>j \<in> set (map fst c). k < j" using less by auto
      then show ?thesis using True Cons.prems \<open>k \<noteq> k'\<close> by (simp add: ordered_by_id_def p)
    next
      case nl: False
      then have "k' < k" using False by simp
      then have "\<forall>j \<in> set (map fst (put_doc k v c)). k' < j"
        using less keys_put_doc [of k v c] by auto
      moreover have "ordered_by_id (put_doc k v c)" using Cons.IH tail by simp
      ultimately show ?thesis using nl False by (simp add: ordered_by_id_def p)
    qed
  qed
qed

lemma keys_change:
  "map fst (map (\<lambda>(k', v). if k' = k then (k', f v) else (k', v)) c) = map fst c"
  by (induction c) auto

lemma ordered_change:
  "ordered_by_id c \<Longrightarrow> ordered_by_id (map (\<lambda>(k', v). if k' = k then (k', f v) else (k', v)) c)"
  unfolding ordered_by_id_def keys_change by simp

lemma keyed_put_doc:
  "keyed_by_userId c \<Longrightarrow> ar_userId v = k \<Longrightarrow> keyed_by_userId (put_doc k v c)"
  by (induction c) (auto simp: keyed_by_userId_def)

lemma keyed_change:
  "keyed_by_userId c \<Longrightarrow> (\<And>d. ar_userId (f d) = ar_userId d)
     \<Longrightarrow> keyed_by_userId (map (\<lambda>(k', v). if k' = k then (k', f v) else (k', v)) c)"
  by (induction c) (auto simp: keyed_by_userId_def split: if_splits)

lemma fs_invariant_setUserRole:
  "fs_invariant fs \<Longrightarrow> fs_invariant (fst (setUserRole fault now userId r by fs))"
  by (auto simp: fs_invariant_def setUserRole_def setDoc_def ordered_put_doc split: option.splits)

lemma fs_invariant_createUserProfile:
  "fs_invariant fs \<Longrightarrow> fs_invariant (fst (createUserProfile e uid dat fs))"
proof -
  assume i: "fs_invariant fs"
  have u: "fs_invariant (fs\<lparr>USERS_COLLECTION := put_doc uid (new_profile uid dat (db_now e)) (USERS_COLLECTION fs)\<rparr>)"
    using i by (simp add: fs_invariant_def ordered_put_doc)
  show ?thesis
    using i u fs_invariant_setUserRole [OF u, of "fault3 e" "db_now2 e" uid Role_super_admin "''system''"]
    by (auto simp: createUserProfile_def setDoc_def split: option.splits sum.splits)
qed

lemma fs_invariant_updateUserProfile:
  "fs_invariant fs \<Longrightarrow> fs_invariant (fst (updateUserProfile fault now uid dat fs))"
  by (auto simp: fs_invariant_def updateUserProfile_def updateDoc_def ordered_change
      split: option.splits)

lemma fs_invariant_createAdminRequest:
  "fs_invariant fs \<Longrightarrow> fs_invariant (fst (createAdminRequest fault now userId email fs))"
  by (auto simp: fs_invariant_def createAdminRequest_def setDoc_def ordered_put_doc keyed_put_doc
      split: option.splits)

lemma fs_invariant_updateAdminRequest:
  "fs_invariant fs \<Longrightarrow> fs_invariant (fst (updateAdminRequest e userId st reviewedBy fs))"
proof -
  assume i: "fs_invariant fs"
  let ?c = "map (\<lambda>(k', v). if k' = userId
                then (k', v\<lparr>ar_status := st, ar_reviewedBy := Some reviewedBy,
                             ar_reviewedAt := Some (db_now e)\<rparr>) else (k', v))
              (ADMIN_REQUESTS_COLLECTION fs)"
  have u: "fs_invariant (fs\<lparr>ADMIN_REQUESTS_COLLECTION := ?c\<rparr>)"
    using i by (simp add: fs_invariant_def ordered_change keyed_change)
  show ?thesis
    using i u fs_invariant_setUserRole [OF u, of "fault2 e" "db_now2 e" userId Role_admin reviewedBy]
    by (auto simp: updateAdminRequest_def updateDoc_def split: option.splits)
qed

lemma fs_invariant_removeUserRole:
  "fs_invariant fs \<Longrightarrow> fs_invariant (fst (removeUserRole fault userId fs))"
  by (auto simp: fs_invariant_def removeUserRole_def updateDoc_def ordered_change
      split: option.splits)

lemma fs_reachable_invariant: "fs_reachable fs \<Longrightarrow> fs_invariant fs"
proof (induction rule: fs_reachable.induct)
  case fs_initial
  show ?case by (simp add: fs_invariant_def empty_firestore_def ordered_by_id_def keyed_by_userId_def)
qed (simp_all add: fs_invariant_createUserProfile fs_invariant_updateUserProfile
       fs_invariant_setUserRole fs_invariant_createAdminRequest fs_invariant_updateAdminRequest
       fs_invariant_removeUserRole)

lemma at_most_one_match:
  "distinct (map f xs) \<Longrightarrow> length (filter (\<lambda>x. f x = u \<and> P x) xs) \<le> 1"
proof (induction xs)
  case Nil
  then show ?case by simp
next
  case (Cons x xs)
  show ?case
  proof (cases "f x = u")
    case True
    have "f x \<notin> f ` set xs" using Cons.prems by simp
    then have "\<forall>y \<in> set xs. f y \<noteq> u" using True by (metis imageI)
    then have "filter (\<lambda>x. f x = u \<and> P x) xs = []" by (simp add: filter_empty_conv)
    then show ?thesis by simp
  next
    case False
    then show ?thesis using Cons by simp
  qed
qed

lemma keyed_userIds: "keyed_by_userId c \<Longrightarrow> map (\<lambda>(k, d). ar_userId d) c = map fst c"
  by (induction c) (auto simp: keyed_by_userId_def)

lemma fs_reachable_distinct_userIds:
  assumes "fs_reachable fs"
  shows "distinct (map (\<lambda>(k, d). ar_userId d) (ADMIN_REQUESTS_COLLECTION fs))"
proof -
  have i: "fs_invariant fs" using assms by (rule fs_reachable_invariant)
  then have "sorted_wrt (<) (map fst (ADMIN_REQUESTS_COLLECTION fs))"
    by (simp add: fs_invariant_def ordered_by_id_def)
  then have "distinct (map fst (ADMIN_REQUESTS_COLLECTION fs))"
    by (simp add: strict_sorted_iff)
  then show ?thesis using i by (simp add: keyed_userIds fs_invariant_def)
qed

lemma sample_signed_up_reachable: "reachable sample_signed_up"
proof -
  have "reachable (create_account ''user-2'' ''u2@example.org''
          (create_account ''admin-1'' ''a1@example.org'' empty_database))"
    by (intro reachable_create_account reachable_initial)
  moreover have "insert_admin_requests None ''req-2'' 5 ''user-2'' ''u2@example.org'' ''pending''
      (create_account ''user-2'' ''u2@example.org''
          (create_account ''admin-1'' ''a1@example.org'' empty_database)) = Inr sample_signed_up"
    by (simp add: insert_admin_requests_def create_account_def empty_database_def valid_status_def
          sample_signed_up_def sample_database_def sample_request_def)
  ultimately show ?thesis by (rule reachable_insert_request)
qed

lemma sample_request_created_reachable:
  "fs_reachable (fst (createAdminRequest None 5 ''user-2'' ''u2@example.org'' empty_firestore))"
  by (intro fs_createAdminRequest fs_initial)

lemma sample_gallery_reachable: "reachable sample_gallery"
proof -
  have a: "insert_gallery_albums None ''alb-1'' 1 ''Sunday service'' None empty_database
         = Inr (empty_database\<lparr>gallery_albums :=
          [\<lparr>alb_id = ''alb-1'', alb_title = ''Sunday service'', alb_description = None,
            alb_cover_image_url = None, alb_is_active = True, alb_display_order = 0,
            alb_created_at = 1\<rparr>]\<rparr>)"
    by (simp add: insert_gallery_albums_def empty_database_def)
  have b: "insert_gallery_images None ''img-1'' 2 ''alb-1'' ''https://cdn/1.jpg''
          (empty_database\<lparr>gallery_albums :=
          [\<lparr>alb_id = ''alb-1'', alb_title = ''Sunday service'', alb_description = None,
            alb_cover_image_url = None, alb_is_active = True, alb_display_order = 0,
            alb_created_at = 1\<rparr>]\<rparr>) = Inr sample_gallery"
    by (simp add: insert_gallery_images_def empty_database_def sample_gallery_def)
  show ?thesis
    using reachable_insert_image [OF reachable_insert_album [OF reachable_initial a] b] .
qed

lemma getAllAdmins_Inr:
  "getAllAdmins fault fs = Inr admins \<longleftrightarrow>
     fault = None \<and>
     admins = map snd (filter (\<lambda>(k, d). rd_role d \<in> set [Role_admin, Role_super_admin])
                         (USER_ROLES_COLLECTION fs))"
  by (auto simp: getAllAdmins_def getDocs_where_def split: option.splits)

lemma no_admins_filter:
  assumes "\<not> (\<exists>k d. (k, d) \<in> set c \<and> (rd_role d = Role_admin \<or> rd_role d = Role_super_admin))"
  shows "filter (\<lambda>(k, d). rd_role d \<in> set [Role_admin, Role_super_admin]) c = []"
  using assms by (auto simp: filter_empty_conv)

lemma handleRejectRequest_calls:
  "out_calls (handleRejectRequest e requestId userId email db) = [Call_invoke_delete_user userId]"
  by (simp add: handleRejectRequest_def split: sum.splits)

lemma handleRejectRequest_success:
  assumes "out_toast (handleRejectRequest e requestId userId email db) = Toast_success msg"
  shows "delete_user (fault1 e) userId db = Inr (out_db (handleRejectRequest e requestId userId email db))"
  using assms by (simp add: handleRejectRequest_def split: sum.splits)

lemma delete_user_removes:
  assumes "delete_user fault uid db = Inr db'"
  shows "uid \<notin> set (auth_users db')"
    and "filter (\<lambda>p. prof_id p = uid) (profiles db') = []"
    and "filter (\<lambda>r. ur_user_id r = uid) (user_roles db') = []"
    and "filter (\<lambda>r. req_user_id r = uid) (admin_requests db') = []"
    and "filter (\<lambda>r. req_reviewed_by r = Some uid) (admin_requests db') = []"
proof -
  have db': "db' = db\<lparr>auth_users := removeAll uid (auth_users db),
              profiles := filter (\<lambda>p. prof_id p \<noteq> uid) (profiles db),
              user_roles := filter (\<lambda>r. ur_user_id r \<noteq> uid) (user_roles db),
              admin_requests :=
                map (forget_reviewer uid) (filter (\<lambda>r. req_user_id r \<noteq> uid) (admin_requests db))\<rparr>"
    using assms by (simp add: delete_user_Inr)
  show "uid \<notin> set (auth_users db')" by (simp add: db')
  show "filter (\<lambda>p. prof_id p = uid) (profiles db') = []"
    by (simp add: db' filter_empty_conv)
  show "filter (\<lambda>r. ur_user_id r = uid) (user_roles db') = []"
    by (simp add: db' filter_empty_conv)
  show "filter (\<lambda>r. req_user_id r = uid) (admin_requests db') = []"
    by (auto simp add: db' filter_empty_conv forget_reviewer_def)
  show "filter (\<lambda>r. req_reviewed_by r = Some uid) (admin_requests db') = []"
    by (auto simp add: db' filter_empty_conv forget_reviewer_def)
qed

lemma denyAdminRequest_Inr:
  assumes "denyAdminRequest e requestId userId reviewedBy fs = (fs', Inr ())"
  shows "fs' = fs\<lparr>ADMIN_REQUESTS_COLLECTION :=
            map (\<lambda>(k', v). if k' = userId
                   then (k', v\<lparr>ar_status := Rejected, ar_reviewedBy := Some reviewedBy,
                                ar_reviewedAt := Some (db_now e)\<rparr>) else (k', v))
              (ADMIN_REQUESTS_COLLECTION fs)\<rparr>"
    and "userId \<in> set (map fst (ADMIN_REQUESTS_COLLECTION fs))"
  using assms
  by (auto simp: denyAdminRequest_def updateAdminRequest_def updateDoc_def
      split: option.splits if_splits)

lemma filter_key_put_doc:
  "ordered_by_id c \<Longrightarrow> filter (\<lambda>p. fst p = u) (put_doc u v c) = [(u, v)]"
proof (induction c)
  case Nil
  then show ?case by simp
next
  case (Cons p c)
  obtain k' v' where p: "p = (k', v')" by (cases p)
  have tail: "ordered_by_id c" and less: "\<forall>x \<in> set c. k' < fst x"
    using Cons.prems by (simp_all add: ordered_by_id_def p)
  show ?case
  proof (cases "u = k'")
    case True
    then have "\<forall>x \<in> set c. fst x \<noteq> u" using less by auto
    then have "filter (\<lambda>p. fst p = u) c = []" by (simp add: filter_empty_conv)
    then show ?thesis using True by (simp add: p)
  next
    case False
    show ?thesis
    proof (cases "u < k'")
      case True
      then have "\<forall>x \<in> set c. fst x \<noteq> u" using less by auto
      then have "filter (\<lambda>p. fst p = u) c = []" by (simp add: filter_empty_conv)
      then show ?thesis using True False by (simp add: p)
    next
      case nl: False
      then show ?thesis using False Cons.IH [OF tail] by (simp add: p)
    qed
  qed
qed

lemma keyed_filter:
  "keyed_by_userId c \<Longrightarrow>
     filter (\<lambda>(k, d). ar_userId d = u) c = filter (\<lambda>p. fst p = u) c"
  by (induction c) (auto simp: keyed_by_userId_def)

lemma createAdminRequest_Inr:
  "createAdminRequest fault now userId email fs = (fs', Inr ()) \<longleftrightarrow>
     fault = None \<and>
     fs' = fs\<lparr>ADMIN_REQUESTS_COLLECTION :=
             put_doc userId
               \<lparr>ar_userId = userId, ar_email = email, ar_status = Pending, ar_reviewedBy = None,
                ar_createdAt = now, ar_reviewedAt = None\<rparr>
               (ADMIN_REQUESTS_COLLECTION fs)\<rparr>"
  by (auto simp: createAdminRequest_def setDoc_def split: option.splits)

lemma createAdminRequest_one_document:
  assumes "fs_reachable fs" and "createAdminRequest fault now userId email fs = (fs', Inr ())"
  shows "filter (\<lambda>(k, d). ar_userId d = userId) (ADMIN_REQUESTS_COLLECTION fs') =
           [(userId, \<lparr>ar_userId = userId, ar_email = email, ar_status = Pending,
                      ar_reviewedBy = None, ar_createdAt = now, ar_reviewedAt = None\<rparr>)]"
proof -
  let ?d = "\<lparr>ar_userId = userId, ar_email = email, ar_status = Pending,
                      ar_reviewedBy = None, ar_createdAt = now, ar_reviewedAt = None\<rparr>"
  have i: "fs_invariant fs" using assms(1) by (rule fs_reachable_invariant)
  have c: "ADMIN_REQUESTS_COLLECTION fs' = put_doc userId ?d (ADMIN_REQUESTS_COLLECTION fs)"
    using assms(2) by (simp add: createAdminRequest_Inr)
  have o: "ordered_by_id (ADMIN_REQUESTS_COLLECTION fs)" using i by (simp add: fs_invariant_def)
  have "keyed_by_userId (put_doc userId ?d (ADMIN_REQUESTS_COLLECTION fs))"
    using i by (intro keyed_put_doc) (simp_all add: fs_invariant_def)
  then have "filter (\<lambda>(k, d). ar_userId d = userId) (put_doc userId ?d (ADMIN_REQUESTS_COLLECTION fs))
      = filter (\<lambda>p. fst p = userId) (put_doc userId ?d (ADMIN_REQUESTS_COLLECTION fs))"
    by (rule keyed_filter)
  also have "\<dots> = [(userId, ?d)]" using o by (rule filter_key_put_doc)
  finally show ?thesis by (simp only: c)
qed

lemma handleSignUp_accepted:
  assumes "signUpSchema_success is_email f"
    and "signUp (trim (form_email f)) (form_password f) db = (res, db1)"
    and "su_error res = None" and "su_userId res = Some uid" and "uid \<noteq> []"
    and "insert_admin_requests (fault1 e) (fresh_id e) (db_now e) uid
           (toLowerCase (trim (form_email f))) ''pending'' db1 = Inr db2"
  shows "handleSignUp is_email toLowerCase signUp e f db =
           \<lparr>out_db = db2,
            out_calls = [Call_signUp (trim (form_email f)), Call_insert_admin_requests uid],
            out_toast = Toast_success ''Account created! Your request is pending admin approval.''\<rparr>"
  using assms by (simp add: handleSignUp_def)

lemma trim_example:
  "trim (CHR 0xC2 # CHR 0xA0 # '' a b'' @ [CHR 0xE3, CHR 0x80, CHR 0x80, CHR 0x09]) = ''a b''"
  "trim (form_email sample_form) = ''New@Example.org''"
  by (simp_all add: trim_def trimStart_def trimEnd_def ws1_def ws2_def ws3_def sample_form_def)

lemma utf16_length_example:
  "utf16_length ''secret1'' = 7"
  "utf16_length [CHR 0xC3, CHR 0xA9, CHR 0xC3, CHR 0xA9, CHR 0xC3, CHR 0xA9, CHR 0xC3, CHR 0xA9,
                 CHR 0xC3, CHR 0xA9] = 5"
  "utf16_length [CHR 0xF0, CHR 0x9F, CHR 0x98, CHR 0x80] = 2"
  by (simp_all add: utf16_length_def utf16_units_def less_char_def)

lemma sample_form_valid: "signUpSchema_success (\<lambda>s. True) sample_form"
  by (simp add: signUpSchema_success_def sample_form_def utf16_length_def utf16_units_def
        less_char_def)

lemma handleSignUp_invalid_example:
  "handleSignUp (\<lambda>s. True) ascii_toLowerCase sample_signUp sample_env
     (sample_form\<lparr>form_confirmPassword := ''other''\<rparr>) sample_database =
     \<lparr>out_db = sample_database, out_calls = [],
      out_toast = Toast_error ''Passwords do not match''\<rparr>"
  by (simp add: handleSignUp_def signUpSchema_success_def confirmPassword_error_def
        sample_form_def utf16_length_def utf16_units_def less_char_def)

lemma handleSignUp_accepted_one_request:
  assumes "signUpSchema_success is_email f"
    and "signUp (trim (form_email f)) (form_password f) db = (res, db1)"
    and "su_error res = None" and "su_userId res = Some uid" and "uid \<noteq> []"
    and "insert_admin_requests (fault1 e) (fresh_id e) (db_now e) uid
           (toLowerCase (trim (form_email f))) ''pending'' db1 = Inr db2"
  shows "out_db (handleSignUp is_email toLowerCase signUp e f db) = db2"
    and "filter (\<lambda>r. req_user_id r = uid) (admin_requests db1) = []"
    and "filter (\<lambda>r. req_user_id r = uid) (admin_requests db2) =
            [\<lparr>req_id = fresh_id e, req_user_id = uid,
              req_email = toLowerCase (trim (form_email f)), req_status = ''pending'',
              req_reviewed_by = None, req_created_at = db_now e, req_reviewed_at = None\<rparr>]"
proof -
  note db2 = insert_admin_requests_Inr(1) [OF assms(6)]
    and fresh = insert_admin_requests_Inr(2) [OF assms(6)]
  show "out_db (handleSignUp is_email toLowerCase signUp e f db) = db2"
    using assms handleSignUp_accepted [of is_email f signUp db res db1 uid e toLowerCase db2]
    by simp
  show none: "filter (\<lambda>r. req_user_id r = uid) (admin_requests db1) = []"
    using fresh by (auto simp: filter_empty_conv)
  have "admin_requests db2 = admin_requests db1 @
            [\<lparr>req_id = fresh_id e, req_user_id = uid,
              req_email = toLowerCase (trim (form_email f)), req_status = ''pending'',
              req_reviewed_by = None, req_created_at = db_now e, req_reviewed_at = None\<rparr>]"
    by (simp add: db2)
  then show "filter (\<lambda>r. req_user_id r = uid) (admin_requests db2) =
            [\<lparr>req_id = fresh_id e, req_user_id = uid,
              req_email = toLowerCase (trim (form_email f)), req_status = ''pending'',
              req_reviewed_by = None, req_created_at = db_now e, req_reviewed_at = None\<rparr>]"
    using none by simp
qed

lemma handleSignUp_accepted_example:
  "filter (\<lambda>r. req_user_id r = ''user-3'')
     (admin_requests (out_db (handleSignUp (\<lambda>s. True) ascii_toLowerCase sample_signUp sample_env
        sample_form sample_database)))
   = [\<lparr>req_id = ''id-9'', req_user_id = ''user-3'',
        req_email = ascii_toLowerCase ''New@Example.org'', req_status = ''pending'',
        req_reviewed_by = None, req_created_at = 10, req_reviewed_at = None\<rparr>]"
  using sample_form_valid
  by (simp add: handleSignUp_def trim_example sample_signUp_def sample_database_def
        sample_request_def sample_env_def insert_admin_requests_def create_account_def
        valid_status_def)

lemma order_created_at_desc_props:
  "mset (order_created_at_desc rows) = mset rows"
  "sorted_wrt (\<lambda>a b. req_created_at b \<le> req_created_at a) (order_created_at_desc rows)"
proof -
  show "mset (order_created_at_desc rows) = mset rows"
    by (simp add: order_created_at_desc_def)
  have "sorted (map req_created_at (sort_key req_created_at rows))" by simp
  then have "sorted_wrt (\<lambda>a b. req_created_at a \<le> req_created_at b) (sort_key req_created_at rows)"
    by (simp only: sorted_map)
  then show "sorted_wrt (\<lambda>a b. req_created_at b \<le> req_created_at a) (order_created_at_desc rows)"
    by (simp add: order_created_at_desc_def sorted_wrt_rev)
qed

lemma ordered_filter: "ordered_by_id c \<Longrightarrow> ordered_by_id (filter P c)"
  unfolding ordered_by_id_def sorted_wrt_map by (rule sorted_wrt_filter)

lemma sample_three_requests_reachable: "fs_reachable sample_three_requests"
  unfolding sample_three_requests_def by (intro fs_createAdminRequest fs_initial)

lemma sample_three_requests_eval:
  "getPendingAdminRequests None sample_three_requests =
     Inr [(''user-a'', \<lparr>ar_userId = ''user-a'', ar_email = ''a@example.org'', ar_status = Pending,
                         ar_reviewedBy = None, ar_createdAt = 2, ar_reviewedAt = None\<rparr>),
          (''user-b'', \<lparr>ar_userId = ''user-b'', ar_email = ''b@example.org'', ar_status = Pending,
                         ar_reviewedBy = None, ar_createdAt = 1, ar_reviewedAt = None\<rparr>),
          (''user-c'', \<lparr>ar_userId = ''user-c'', ar_email = ''c@example.org'', ar_status = Pending,
                         ar_reviewedBy = None, ar_createdAt = 3, ar_reviewedAt = None\<rparr>)]"
  by (simp add: sample_three_requests_def createAdminRequest_def setDoc_def empty_firestore_def
        getPendingAdminRequests_def getDocs_where_def)

subsection \<open>The admin management page and the request functions\<close>

text \<open>
  Claim C9. When the target of the remove-admin operation is the signed-in user's own
  id, the handler sends nothing to the backend (in particular no call of the deletion
  function) and leaves the database as it was; it only shows the notice that one cannot
  remove one's own access.
\<close>

theorem handleRemoveAdmin_self_is_noop:
  "handleRemoveAdmin (Some uid) e adminId uid db =
     \<lparr>out_db = db, out_calls = [], out_toast = Toast_error ''You cannot remove your own admin access''\<rparr>"
  by (simp add: handleRemoveAdmin_def)

text \<open>
  Claim C3. The approval is not atomic: when the role insert is accepted and the update
  of the request then fails, the request table is what it was (the request is still
  pending), the user holds an admin role row, and the handler has sent exactly the
  insert and the update: no removal of the role and no second attempt. The failure is
  only shown as a notification.
\<close>

theorem approve_not_atomic:
  assumes "r \<in> set (admin_requests db)" and "req_id r = requestId" and "req_user_id r = userId"
    and "req_status r = ''pending''"
    and "insert_user_roles (fault1 e) (fresh_id e) (db_now e) userId App_admin db = Inr db1"
    and "update_admin_requests (fault2 e) requestId ''approved'' (client_now e) user db1 = Inl err"
  shows "admin_requests (out_db (handleApproveRequest user e requestId userId email db)) = admin_requests db
       \<and> r \<in> set (admin_requests (out_db (handleApproveRequest user e requestId userId email db)))
       \<and> (\<exists>ur. ur \<in> set (user_roles (out_db (handleApproveRequest user e requestId userId email db)))
              \<and> ur_user_id ur = userId \<and> ur_role ur = App_admin)
       \<and> out_calls (handleApproveRequest user e requestId userId email db) =
           [Call_insert_user_roles userId App_admin, Call_update_admin_requests requestId]
       \<and> out_toast (handleApproveRequest user e requestId userId email db) = Toast_error_of err"
proof -
  have db1: "db1 = db\<lparr>user_roles := user_roles db @
        [\<lparr>ur_id = fresh_id e, ur_user_id = userId, ur_role = App_admin, ur_created_at = db_now e\<rparr>]\<rparr>"
    using assms(5) by (simp add: insert_user_roles_Inr)
  have out: "handleApproveRequest user e requestId userId email db =
      \<lparr>out_db = db1,
       out_calls = [Call_insert_user_roles userId App_admin, Call_update_admin_requests requestId],
       out_toast = Toast_error_of err\<rparr>"
    using assms(5,6) by (simp add: handleApproveRequest_def)
  show ?thesis using assms(1) by (auto simp add: out db1)
qed

theorem approve_not_atomic_witness:
  "sample_request \<in> set (admin_requests sample_database)
   \<and> req_status sample_request = ''pending''
   \<and> update_admin_requests (Some (Fault ''network'')) ''req-2'' ''approved'' 12 (Some ''admin-1'')
         (sample_database\<lparr>user_roles := user_roles sample_database @
            [\<lparr>ur_id = ''id-9'', ur_user_id = ''user-2'', ur_role = App_admin, ur_created_at = 10\<rparr>]\<rparr>)
       = Inl (Fault ''network'')
   \<and> admin_requests (out_db (handleApproveRequest (Some ''admin-1'')
          (sample_env\<lparr>fault2 := Some (Fault ''network'')\<rparr>) ''req-2'' ''user-2''
          ''u2@example.org'' sample_database)) = [sample_request]
   \<and> (\<exists>ur. ur \<in> set (user_roles (out_db (handleApproveRequest (Some ''admin-1'')
          (sample_env\<lparr>fault2 := Some (Fault ''network'')\<rparr>) ''req-2'' ''user-2''
          ''u2@example.org'' sample_database)))
          \<and> ur_user_id ur = ''user-2'' \<and> ur_role ur = App_admin)
   \<and> out_calls (handleApproveRequest (Some ''admin-1'')
          (sample_env\<lparr>fault2 := Some (Fault ''network'')\<rparr>) ''req-2'' ''user-2''
          ''u2@example.org'' sample_database)
       = [Call_insert_user_roles ''user-2'' App_admin, Call_update_admin_requests ''req-2'']"
  using approve_not_atomic
    [of sample_request sample_database "''req-2''" "''user-2''"
        "sample_env\<lparr>fault2 := Some (Fault ''network'')\<rparr>"
        "sample_database\<lparr>user_roles := user_roles sample_database @
            [\<lparr>ur_id = ''id-9'', ur_user_id = ''user-2'', ur_role = App_admin, ur_created_at = 10\<rparr>]\<rparr>"
        "Some ''admin-1''" "Fault ''network''" "''u2@example.org''"]
  by (simp add: sample_request_def sample_database_def sample_env_def
        insert_user_roles_def update_admin_requests_def)

text \<open>
  Claim C1. Approving a pending request results in the user holding the admin role.
  On the admin page: when \<open>handleApproveRequest\<close>, run by a signed-in administrator
  on a pending request, reaches its success notification, the user has a
  \<open>user_roles\<close> row with role \<open>admin\<close>, and the request row is now
  \<open>approved\<close> with \<open>reviewed_by\<close> the administrator and \<open>reviewed_at\<close> the
  time of the click; no row with the request's id is pending any more. In the document
  store: when \<open>updateAdminRequest\<close> with status \<open>approved\<close> returns, the user's
  role document has role \<open>admin\<close>, and the request is \<open>approved\<close> with reviewer
  and review time recorded. (What happens when a call fails is the subject of C3.)
\<close>

theorem approve_results_in_admin_role:
  "(r \<in> set (admin_requests db) \<and> req_id r = requestId \<and> req_user_id r = userId
      \<and> req_status r = ''pending''
      \<and> out_toast (handleApproveRequest (Some admin) e requestId userId email db) = Toast_success msg
    \<longrightarrow> (\<exists>ur. ur \<in> set (user_roles (out_db (handleApproveRequest (Some admin) e requestId userId email db)))
              \<and> ur_user_id ur = userId \<and> ur_role ur = App_admin)
        \<and> r\<lparr>req_status := ''approved'', req_reviewed_at := Some (client_now e),
              req_reviewed_by := Some admin\<rparr>
            \<in> set (admin_requests (out_db (handleApproveRequest (Some admin) e requestId userId email db)))
        \<and> \<not> (\<exists>r'. r' \<in> set (admin_requests
                       (out_db (handleApproveRequest (Some admin) e requestId userId email db)))
                  \<and> req_id r' = requestId \<and> req_status r' = ''pending''))
   \<and> (map_of (ADMIN_REQUESTS_COLLECTION fs) userId' = Some d \<and> ar_status d = Pending
      \<and> updateAdminRequest e' userId' Approved reviewedBy fs = (fs', Inr ())
    \<longrightarrow> map_of (USER_ROLES_COLLECTION fs') userId' =
            Some \<lparr>rd_userId = userId', rd_role = Role_admin, rd_assignedBy = reviewedBy,
                  rd_assignedAt = db_now2 e'\<rparr>
        \<and> map_of (ADMIN_REQUESTS_COLLECTION fs') userId' =
            Some (d\<lparr>ar_status := Approved, ar_reviewedBy := Some reviewedBy,
                    ar_reviewedAt := Some (db_now e')\<rparr>))"
proof (intro conjI impI)
  assume a: "r \<in> set (admin_requests db) \<and> req_id r = requestId \<and> req_user_id r = userId
      \<and> req_status r = ''pending''
      \<and> out_toast (handleApproveRequest (Some admin) e requestId userId email db) = Toast_success msg"
  then have out: "out_db (handleApproveRequest (Some admin) e requestId userId email db) =
           db\<lparr>user_roles := user_roles db @
                  [\<lparr>ur_id = fresh_id e, ur_user_id = userId, ur_role = App_admin,
                    ur_created_at = db_now e\<rparr>],
                admin_requests :=
                  map (\<lambda>r. if req_id r = requestId
                            then review_row ''approved'' (client_now e) (Some admin) r else r)
                    (admin_requests db)\<rparr>"
    using handleApproveRequest_success [of r db requestId "Some admin" e userId email msg] by simp
  show "\<exists>ur. ur \<in> set (user_roles (out_db (handleApproveRequest (Some admin) e requestId userId email db)))
              \<and> ur_user_id ur = userId \<and> ur_role ur = App_admin"
    by (auto simp: out)
  have "review_row ''approved'' (client_now e) (Some admin) r
          \<in> set (admin_requests (out_db (handleApproveRequest (Some admin) e requestId userId email db)))"
  proof -
    have "(\<lambda>r. if req_id r = requestId
               then review_row ''approved'' (client_now e) (Some admin) r else r) r
            \<in> (\<lambda>r. if req_id r = requestId
                     then review_row ''approved'' (client_now e) (Some admin) r else r)
                ` set (admin_requests db)"
      using a by (intro imageI) simp
    then show ?thesis using a by (simp add: out)
  qed
  then show "r\<lparr>req_status := ''approved'', req_reviewed_at := Some (client_now e),
              req_reviewed_by := Some admin\<rparr>
            \<in> set (admin_requests (out_db (handleApproveRequest (Some admin) e requestId userId email db)))"
    by (simp add: review_row_def)
  show "\<not> (\<exists>r'. r' \<in> set (admin_requests
                       (out_db (handleApproveRequest (Some admin) e requestId userId email db)))
                  \<and> req_id r' = requestId \<and> req_status r' = ''pending'')"
  proof
    assume "\<exists>r'. r' \<in> set (admin_requests
                       (out_db (handleApproveRequest (Some admin) e requestId userId email db)))
                  \<and> req_id r' = requestId \<and> req_status r' = ''pending''"
    moreover have ar: "admin_requests
             (out_db (handleApproveRequest (Some admin) e requestId userId email db)) =
           map (\<lambda>r. if req_id r = requestId
                            then review_row ''approved'' (client_now e) (Some admin) r else r)
                    (admin_requests db)"
      by (simp add: out)
    ultimately obtain r' where m: "r' \<in> set (map (\<lambda>r. if req_id r = requestId
                            then review_row ''approved'' (client_now e) (Some admin) r else r)
                    (admin_requests db))"
      and i: "req_id r' = requestId" and p: "req_status r' = ''pending''"
      by (simp only: ar) blast
    from reviewed_rows_status [OF m i] p show False by simp
  qed
next
  assume b: "map_of (ADMIN_REQUESTS_COLLECTION fs) userId' = Some d \<and> ar_status d = Pending
      \<and> updateAdminRequest e' userId' Approved reviewedBy fs = (fs', Inr ())"
  then show "map_of (USER_ROLES_COLLECTION fs') userId' =
            Some \<lparr>rd_userId = userId', rd_role = Role_admin, rd_assignedBy = reviewedBy,
                  rd_assignedAt = db_now2 e'\<rparr>"
    and "map_of (ADMIN_REQUESTS_COLLECTION fs') userId' =
            Some (d\<lparr>ar_status := Approved, ar_reviewedBy := Some reviewedBy,
                    ar_reviewedAt := Some (db_now e')\<rparr>)"
    using updateAdminRequest_approved [of fs userId' d e' reviewedBy fs'] by simp_all
qed

theorem approve_results_in_admin_role_witness:
  "sample_request \<in> set (admin_requests sample_database)
   \<and> req_status sample_request = ''pending''
   \<and> out_toast (handleApproveRequest (Some ''admin-1'') sample_env ''req-2'' ''user-2''
         ''u2@example.org'' sample_database)
       = Toast_success ''u2@example.org has been approved as admin''
   \<and> (\<exists>ur. ur \<in> set (user_roles (out_db (handleApproveRequest (Some ''admin-1'') sample_env
                ''req-2'' ''user-2'' ''u2@example.org'' sample_database)))
          \<and> ur_user_id ur = ''user-2'' \<and> ur_role ur = App_admin)
   \<and> sample_request\<lparr>req_status := ''approved'', req_reviewed_at := Some 12,
          req_reviewed_by := Some ''admin-1''\<rparr>
       \<in> set (admin_requests (out_db (handleApproveRequest (Some ''admin-1'') sample_env
                ''req-2'' ''user-2'' ''u2@example.org'' sample_database)))
   \<and> map_of (ADMIN_REQUESTS_COLLECTION sample_firestore) ''user-2''
       = Some \<lparr>ar_userId = ''user-2'', ar_email = ''u2@example.org'', ar_status = Pending,
               ar_reviewedBy = None, ar_createdAt = 5, ar_reviewedAt = None\<rparr>
   \<and> snd (updateAdminRequest sample_env ''user-2'' Approved ''admin-1'' sample_firestore) = Inr ()
   \<and> map_of (USER_ROLES_COLLECTION
         (fst (updateAdminRequest sample_env ''user-2'' Approved ''admin-1'' sample_firestore)))
         ''user-2''
       = Some \<lparr>rd_userId = ''user-2'', rd_role = Role_admin, rd_assignedBy = ''admin-1'',
               rd_assignedAt = 11\<rparr>"
  using approve_results_in_admin_role
    [of sample_request sample_database "''req-2''" "''user-2''" "''admin-1''" sample_env
        "''u2@example.org''" "''u2@example.org has been approved as admin''"
        sample_firestore "''user-2''"
        "\<lparr>ar_userId = ''user-2'', ar_email = ''u2@example.org'', ar_status = Pending,
               ar_reviewedBy = None, ar_createdAt = 5, ar_reviewedAt = None\<rparr>"
        sample_env "''admin-1''"
        "fst (updateAdminRequest sample_env ''user-2'' Approved ''admin-1'' sample_firestore)"]
  by (simp add: sample_request_def sample_database_def sample_env_def sample_firestore_def
        handleApproveRequest_def insert_user_roles_def update_admin_requests_def valid_status_def
        review_row_def updateAdminRequest_def updateDoc_def setUserRole_def setDoc_def
        new_profile_def)

subsection \<open>Integrity of the stored data\<close>

text \<open>
  Claim C5. In every reachable state of the relational backend no two rows of
  \<open>admin_requests\<close> have the same \<open>user_id\<close>, hence every user has at most one
  pending request; every statement the pages issue preserves this, the insert by the
  table's \<open>UNIQUE (user_id)\<close>. In every reachable state of the document store no
  two request documents have the same \<open>userId\<close> (a request is stored under the
  user's id), hence again at most one pending request per user.
\<close>

theorem one_admin_request_per_user:
  "(reachable db \<longrightarrow>
      distinct (map req_user_id (admin_requests db))
      \<and> (\<forall>uid. length (filter (\<lambda>r. req_user_id r = uid \<and> req_status r = ''pending'')
                          (admin_requests db)) \<le> 1))
   \<and> (fs_reachable fs \<longrightarrow>
      distinct (map (\<lambda>(k, d). ar_userId d) (ADMIN_REQUESTS_COLLECTION fs))
      \<and> (\<forall>uid. length (filter (\<lambda>(k, d). ar_userId d = uid \<and> ar_status d = Pending)
                          (ADMIN_REQUESTS_COLLECTION fs)) \<le> 1))"
proof (intro conjI impI allI)
  assume r: "reachable db"
  then show d: "distinct (map req_user_id (admin_requests db))"
    using reachable_one_request by (simp add: one_request_per_user_def)
  fix uid
  show "length (filter (\<lambda>r. req_user_id r = uid \<and> req_status r = ''pending'')
                          (admin_requests db)) \<le> 1"
    using d by (rule at_most_one_match)
next
  assume r: "fs_reachable fs"
  then show d: "distinct (map (\<lambda>(k, d). ar_userId d) (ADMIN_REQUESTS_COLLECTION fs))"
    by (rule fs_reachable_distinct_userIds)
  fix uid
  have len: "length (filter (\<lambda>x. (\<lambda>(k, d). ar_userId d) x = uid \<and> (\<lambda>(k, d). ar_status d = Pending) x)
                          (ADMIN_REQUESTS_COLLECTION fs)) \<le> 1"
    using d by (rule at_most_one_match)
  have eq: "(\<lambda>x. (\<lambda>(k, d). ar_userId d) x = uid \<and> (\<lambda>(k, d). ar_status d = Pending) x)
      = (\<lambda>(k, d). ar_userId d = uid \<and> ar_status d = Pending)"
    by (rule ext) (simp split: prod.splits)
  show "length (filter (\<lambda>(k, d). ar_userId d = uid \<and> ar_status d = Pending)
                          (ADMIN_REQUESTS_COLLECTION fs)) \<le> 1"
    using len unfolding eq .
qed

theorem one_admin_request_per_user_witness:
  "reachable sample_signed_up
   \<and> admin_requests sample_signed_up = [sample_request]
   \<and> distinct (map req_user_id (admin_requests sample_signed_up))
   \<and> length (filter (\<lambda>r. req_user_id r = ''user-2'' \<and> req_status r = ''pending'')
               (admin_requests sample_signed_up)) = 1
   \<and> fs_reachable (fst (createAdminRequest None 5 ''user-2'' ''u2@example.org'' empty_firestore))
   \<and> distinct (map (\<lambda>(k, d). ar_userId d) (ADMIN_REQUESTS_COLLECTION
         (fst (createAdminRequest None 5 ''user-2'' ''u2@example.org'' empty_firestore))))"
  using one_admin_request_per_user
    [of sample_signed_up
        "fst (createAdminRequest None 5 ''user-2'' ''u2@example.org'' empty_firestore)"]
    sample_signed_up_reachable sample_request_created_reachable
  by (simp add: sample_signed_up_def sample_database_def sample_request_def)

text \<open>
  Claim C7. In every reachable state each gallery image names an album that exists.
  Deleting an album, when the statement succeeds, removes the album and exactly the
  images that belonged to it, and the state after it is again reachable.
\<close>

theorem album_deletion_cascades:
  "(reachable db \<longrightarrow>
      (\<forall>img. img \<in> set (gallery_images db)
         \<longrightarrow> img_album_id img \<in> set (map alb_id (gallery_albums db))))
   \<and> (reachable db \<and> deleteAlbumMutation e albumId db = Inr db' \<longrightarrow>
      albumId \<notin> set (map alb_id (gallery_albums db'))
      \<and> filter (\<lambda>i. img_album_id i = albumId) (gallery_images db') = []
      \<and> gallery_images db' = filter (\<lambda>i. img_album_id i \<noteq> albumId) (gallery_images db)
      \<and> reachable db')"
proof (intro conjI impI allI)
  fix img
  assume "reachable db" and "img \<in> set (gallery_images db)"
  then show "img_album_id img \<in> set (map alb_id (gallery_albums db))"
    using reachable_images_reference_albums [of db] by (auto simp: images_reference_albums_def)
next
  assume a: "reachable db \<and> deleteAlbumMutation e albumId db = Inr db'"
  then have d: "delete_gallery_albums (fault1 e) albumId db = Inr db'"
    by (simp add: deleteAlbumMutation_def)
  have inv: "images_reference_albums db" using a reachable_images_reference_albums by blast
  have albums: "gallery_albums db' = filter (\<lambda>a. alb_id a \<noteq> albumId) (gallery_albums db)"
    using d by (rule delete_gallery_albums_Inr(2))
  show "albumId \<notin> set (map alb_id (gallery_albums db'))" by (auto simp: albums)
  show images: "gallery_images db' = filter (\<lambda>i. img_album_id i \<noteq> albumId) (gallery_images db)"
  proof (cases "albumId \<in> set (map alb_id (gallery_albums db))")
    case True
    with d show ?thesis by (rule delete_gallery_albums_Inr(3))
  next
    case False
    then have "db' = db" using d by (rule delete_gallery_albums_Inr(4)[rotated])
    moreover have "\<forall>i \<in> set (gallery_images db). img_album_id i \<noteq> albumId"
      using inv False by (auto simp: images_reference_albums_def)
    ultimately show ?thesis by (simp add: filter_id_conv)
  qed
  show "filter (\<lambda>i. img_album_id i = albumId) (gallery_images db') = []"
    by (simp add: images filter_empty_conv)
  show "reachable db'" using a d reachable_delete_album by blast
qed

theorem album_deletion_cascades_witness:
  "reachable sample_gallery
   \<and> map img_album_id (gallery_images sample_gallery) = [''alb-1'']
   \<and> deleteAlbumMutation sample_env ''alb-1'' sample_gallery = Inr empty_database
   \<and> gallery_images empty_database = []
   \<and> ''alb-1'' \<notin> set (map alb_id (gallery_albums empty_database))
   \<and> reachable empty_database"
  using album_deletion_cascades [of sample_gallery sample_env "''alb-1''" empty_database]
    sample_gallery_reachable
  by (simp add: sample_gallery_def sample_env_def empty_database_def deleteAlbumMutation_def
        delete_gallery_albums_def)

subsection \<open>First user, rejection, sign-up and the pending list\<close>

text \<open>
  Claim C8. When \<open>createUserProfile\<close> returns and no role document had role
  \<open>admin\<close> or \<open>super_admin\<close> before the call, the new user's role document has
  role \<open>super_admin\<close>, assigned by \<open>system\<close>; the profile is stored, and the
  collection of admin requests is untouched: the first user becomes an administrator
  without a request.
\<close>

theorem first_user_becomes_super_admin:
  assumes "\<not> (\<exists>k d. (k, d) \<in> set (USER_ROLES_COLLECTION fs)
                 \<and> (rd_role d = Role_admin \<or> rd_role d = Role_super_admin))"
    and "createUserProfile e uid dat fs = (fs', Inr ())"
  shows "map_of (USER_ROLES_COLLECTION fs') uid =
           Some \<lparr>rd_userId = uid, rd_role = Role_super_admin, rd_assignedBy = ''system'',
                 rd_assignedAt = db_now2 e\<rparr>
       \<and> isUserAdmin None uid fs'
       \<and> map_of (USERS_COLLECTION fs') uid = Some (new_profile uid dat (db_now e))
       \<and> ADMIN_REQUESTS_COLLECTION fs' = ADMIN_REQUESTS_COLLECTION fs"
proof (cases "setDoc (fault1 e) uid (new_profile uid dat (db_now e)) (USERS_COLLECTION fs)")
  case (Inl err)
  then show ?thesis using assms(2) by (simp add: createUserProfile_def)
next
  case (Inr c)
  then have c: "c = put_doc uid (new_profile uid dat (db_now e)) (USERS_COLLECTION fs)"
    by (simp add: setDoc_Inr)
  show ?thesis
  proof (cases "getAllAdmins (fault2 e) (fs\<lparr>USERS_COLLECTION := c\<rparr>)")
    case (Inl err)
    then show ?thesis using assms(2) Inr by (simp add: createUserProfile_def)
  next
    case admins: (Inr admins)
    have "admins = []"
      using admins no_admins_filter [OF assms(1)] by (simp add: getAllAdmins_Inr)
    then have "setUserRole (fault3 e) (db_now2 e) uid Role_super_admin ''system''
                 (fs\<lparr>USERS_COLLECTION := c\<rparr>) = (fs', Inr ())"
      using assms(2) Inr admins by (simp add: createUserProfile_def)
    then have fs': "fs' = fs\<lparr>USERS_COLLECTION := c, USER_ROLES_COLLECTION :=
        put_doc uid \<lparr>rd_userId = uid, rd_role = Role_super_admin, rd_assignedBy = ''system'',
                     rd_assignedAt = db_now2 e\<rparr> (USER_ROLES_COLLECTION fs)\<rparr>"
      by (simp add: setUserRole_Inr)
    show ?thesis
      by (simp add: fs' c map_of_put_doc isUserAdmin_def getUserRole_def getDoc_def)
  qed
qed

theorem first_user_becomes_super_admin_witness:
  "USER_ROLES_COLLECTION empty_firestore = []
   \<and> snd (createUserProfile sample_env ''user-1'' sample_profile_data empty_firestore) = Inr ()
   \<and> map_of (USER_ROLES_COLLECTION
         (fst (createUserProfile sample_env ''user-1'' sample_profile_data empty_firestore)))
         ''user-1''
       = Some \<lparr>rd_userId = ''user-1'', rd_role = Role_super_admin, rd_assignedBy = ''system'',
               rd_assignedAt = 11\<rparr>
   \<and> isUserAdmin None ''user-1''
         (fst (createUserProfile sample_env ''user-1'' sample_profile_data empty_firestore))"
  using first_user_becomes_super_admin
    [of empty_firestore sample_env "''user-1''" sample_profile_data
        "fst (createUserProfile sample_env ''user-1'' sample_profile_data empty_firestore)"]
  by (simp add: empty_firestore_def sample_env_def sample_profile_data_def createUserProfile_def
        setDoc_def getAllAdmins_def getDocs_where_def setUserRole_def)

text \<open>
  Claim C2, as the code has it. The reject handler of the admin page always sends
  exactly one request, the invocation of \<open>delete-user\<close> for the target user; when
  it reports success the account is gone from the auth schema together with the user's
  profile, role rows and admin request. \<open>denyAdminRequest\<close> of the document store is
  a different operation: when it returns, the request is marked \<open>rejected\<close> with
  reviewer and review time, and the \<open>users\<close> and \<open>user_roles\<close> collections are
  what they were.
\<close>

theorem reject_removes_account_on_admin_page:
  "out_calls (handleRejectRequest e requestId userId email db) = [Call_invoke_delete_user userId]
   \<and> (out_toast (handleRejectRequest e requestId userId email db) = Toast_success msg \<longrightarrow>
        userId \<notin> set (auth_users (out_db (handleRejectRequest e requestId userId email db)))
        \<and> filter (\<lambda>p. prof_id p = userId)
            (profiles (out_db (handleRejectRequest e requestId userId email db))) = []
        \<and> filter (\<lambda>r. ur_user_id r = userId)
            (user_roles (out_db (handleRejectRequest e requestId userId email db))) = []
        \<and> filter (\<lambda>r. req_user_id r = userId)
            (admin_requests (out_db (handleRejectRequest e requestId userId email db))) = [])
   \<and> (denyAdminRequest e' requestId' userId' reviewedBy fs = (fs', Inr ()) \<longrightarrow>
        USERS_COLLECTION fs' = USERS_COLLECTION fs
        \<and> USER_ROLES_COLLECTION fs' = USER_ROLES_COLLECTION fs
        \<and> map fst (ADMIN_REQUESTS_COLLECTION fs') = map fst (ADMIN_REQUESTS_COLLECTION fs)
        \<and> (\<exists>d. map_of (ADMIN_REQUESTS_COLLECTION fs) userId' = Some d
              \<and> map_of (ADMIN_REQUESTS_COLLECTION fs') userId' =
                  Some (d\<lparr>ar_status := Rejected, ar_reviewedBy := Some reviewedBy,
                          ar_reviewedAt := Some (db_now e')\<rparr>)))"
proof (intro conjI impI)
  show "out_calls (handleRejectRequest e requestId userId email db) = [Call_invoke_delete_user userId]"
    by (rule handleRejectRequest_calls)
next
  assume "out_toast (handleRejectRequest e requestId userId email db) = Toast_success msg"
  then have d: "delete_user (fault1 e) userId db
      = Inr (out_db (handleRejectRequest e requestId userId email db))"
    by (rule handleRejectRequest_success)
  show "userId \<notin> set (auth_users (out_db (handleRejectRequest e requestId userId email db)))"
    using d by (rule delete_user_removes(1))
  show "filter (\<lambda>p. prof_id p = userId)
            (profiles (out_db (handleRejectRequest e requestId userId email db))) = []"
    using d by (rule delete_user_removes(2))
  show "filter (\<lambda>r. ur_user_id r = userId)
            (user_roles (out_db (handleRejectRequest e requestId userId email db))) = []"
    using d by (rule delete_user_removes(3))
  show "filter (\<lambda>r. req_user_id r = userId)
            (admin_requests (out_db (handleRejectRequest e requestId userId email db))) = []"
    using d by (rule delete_user_removes(4))
next
  assume a: "denyAdminRequest e' requestId' userId' reviewedBy fs = (fs', Inr ())"
  note fs' = denyAdminRequest_Inr(1) [OF a] and k = denyAdminRequest_Inr(2) [OF a]
  show "USERS_COLLECTION fs' = USERS_COLLECTION fs" by (simp add: fs')
  show "USER_ROLES_COLLECTION fs' = USER_ROLES_COLLECTION fs" by (simp add: fs')
  show "map fst (ADMIN_REQUESTS_COLLECTION fs') = map fst (ADMIN_REQUESTS_COLLECTION fs)"
  proof -
    have "ADMIN_REQUESTS_COLLECTION fs' =
            map (\<lambda>(k', v). if k' = userId'
                   then (k', v\<lparr>ar_status := Rejected, ar_reviewedBy := Some reviewedBy,
                                ar_reviewedAt := Some (db_now e')\<rparr>) else (k', v))
              (ADMIN_REQUESTS_COLLECTION fs)"
      by (simp add: fs')
    then show ?thesis by (simp only: keys_change)
  qed
  from k obtain d where d: "map_of (ADMIN_REQUESTS_COLLECTION fs) userId' = Some d"
    by (metis list.set_map map_of_eq_None_iff not_Some_eq)
  show "\<exists>d. map_of (ADMIN_REQUESTS_COLLECTION fs) userId' = Some d
              \<and> map_of (ADMIN_REQUESTS_COLLECTION fs') userId' =
                  Some (d\<lparr>ar_status := Rejected, ar_reviewedBy := Some reviewedBy,
                          ar_reviewedAt := Some (db_now e')\<rparr>)"
    using d by (simp add: fs' map_of_change)
qed

theorem reject_removes_account_on_admin_page_witness:
  "out_toast (handleRejectRequest sample_env ''req-2'' ''user-2'' ''u2@example.org'' sample_database)
     = Toast_success ''Request from u2@example.org has been rejected and user removed''
   \<and> auth_users (out_db (handleRejectRequest sample_env ''req-2'' ''user-2'' ''u2@example.org''
        sample_database)) = [''admin-1'']
   \<and> admin_requests (out_db (handleRejectRequest sample_env ''req-2'' ''user-2'' ''u2@example.org''
        sample_database)) = []
   \<and> snd (denyAdminRequest sample_env ''user-2'' ''user-2'' ''admin-1'' sample_firestore) = Inr ()
   \<and> USERS_COLLECTION (fst (denyAdminRequest sample_env ''user-2'' ''user-2'' ''admin-1''
        sample_firestore)) = USERS_COLLECTION sample_firestore"
  using reject_removes_account_on_admin_page
    [of sample_env "''req-2''" "''user-2''" "''u2@example.org''" sample_database
        "''Request from u2@example.org has been rejected and user removed''"
        sample_env "''user-2''" "''user-2''" "''admin-1''" sample_firestore
        "fst (denyAdminRequest sample_env ''user-2'' ''user-2'' ''admin-1'' sample_firestore)"]
  by (simp add: sample_env_def sample_database_def sample_request_def sample_firestore_def
        handleRejectRequest_def delete_user_def forget_reviewer_def denyAdminRequest_def
        updateAdminRequest_def updateDoc_def)

text \<open>
  The claim as stated fails for \<open>denyAdminRequest\<close>: after a successful denial of
  \<open>user-2\<close>'s request the request is \<open>rejected\<close> and the user's profile is still
  in the store.
\<close>

theorem reject_keeps_account_counterexample:
  "snd (denyAdminRequest sample_env ''user-2'' ''user-2'' ''admin-1'' sample_firestore) = Inr ()
   \<and> map_option ar_status
        (map_of (ADMIN_REQUESTS_COLLECTION
           (fst (denyAdminRequest sample_env ''user-2'' ''user-2'' ''admin-1'' sample_firestore)))
           ''user-2'') = Some Rejected
   \<and> getUserProfile None ''user-2''
        (fst (denyAdminRequest sample_env ''user-2'' ''user-2'' ''admin-1'' sample_firestore))
       = Inr (Some (new_profile ''user-2''
            \<lparr>pd_uid = None, pd_email = Some ''u2@example.org'', pd_displayName = None,
             pd_photoURL = None, pd_firstName = None, pd_lastName = None, pd_title = None,
             pd_phoneNumber = None\<rparr> 4))"
  by (simp add: sample_env_def sample_firestore_def denyAdminRequest_def updateAdminRequest_def
        updateDoc_def getUserProfile_def getDoc_def)

text \<open>
  Claim C4. Every successful sign-up is to create exactly one admin request row for the
  newly created user, with status \<open>pending\<close>. The handler sends the insert for it,
  and when the backend accepts the insert the row is there and is the user's only one
  (\<open>handleSignUp_accepted_one_request\<close>; in the document store
  \<open>createAdminRequest_one_document\<close>). The code departs from this when the backend
  refuses the insert. In the run below the form is valid, \<open>signUp\<close> has succeeded
  and created the account \<open>user-3\<close>, and the insert is refused: the handler has sent
  the insert, shows "Account created! Your request is pending admin approval.", and the
  database holds the account and no request row for it.
\<close>

theorem signup_refused_insert_reports_pending:
  "signUpSchema_success (\<lambda>s. True) sample_form
   \<and> sample_signUp (trim (form_email sample_form)) (form_password sample_form) sample_database
       = (\<lparr>su_error = None, su_userId = Some ''user-3''\<rparr>,
          create_account ''user-3'' ''New@Example.org'' sample_database)
   \<and> out_calls (handleSignUp (\<lambda>s. True) ascii_toLowerCase sample_signUp
          (sample_env\<lparr>fault1 := Some (Fault ''row-level security'')\<rparr>) sample_form
          sample_database)
       = [Call_signUp ''New@Example.org'', Call_insert_admin_requests ''user-3'']
   \<and> out_toast (handleSignUp (\<lambda>s. True) ascii_toLowerCase sample_signUp
          (sample_env\<lparr>fault1 := Some (Fault ''row-level security'')\<rparr>) sample_form
          sample_database)
       = Toast_success ''Account created! Your request is pending admin approval.''
   \<and> out_db (handleSignUp (\<lambda>s. True) ascii_toLowerCase sample_signUp
          (sample_env\<lparr>fault1 := Some (Fault ''row-level security'')\<rparr>) sample_form
          sample_database)
       = create_account ''user-3'' ''New@Example.org'' sample_database
   \<and> ''user-3'' \<in> set (auth_users (create_account ''user-3'' ''New@Example.org'' sample_database))
   \<and> filter (\<lambda>r. req_user_id r = ''user-3'')
        (admin_requests (create_account ''user-3'' ''New@Example.org'' sample_database)) = []"
  using sample_form_valid
  by (simp add: handleSignUp_def trim_example sample_signUp_def sample_database_def
        sample_request_def sample_env_def insert_admin_requests_def create_account_def)

text \<open>
  Claim C6, as the code has it. What the query function of \<open>usePendingRequests\<close>
  returns is, as a multiset, the rows of \<open>admin_requests\<close> with status
  \<open>pending\<close>, ordered by \<open>created_at\<close> with the newest first; with a backend that
  answers it does return. What \<open>getPendingAdminRequests\<close> returns is exactly the
  pending request documents, in ascending order of document id; it too returns when the
  backend answers.
\<close>

theorem pending_requests_read:
  "(usePendingRequests_queryFn fault db = Inr rs \<longrightarrow>
      mset rs = mset (filter (\<lambda>r. req_status r = ''pending'') (admin_requests db))
      \<and> sorted_wrt (\<lambda>a b. req_created_at b \<le> req_created_at a) rs)
   \<and> (\<exists>rs. usePendingRequests_queryFn None db = Inr rs)
   \<and> (fs_reachable fs \<and> getPendingAdminRequests fault' fs = Inr ds \<longrightarrow>
      set ds = {(k, d). (k, d) \<in> set (ADMIN_REQUESTS_COLLECTION fs) \<and> ar_status d = Pending}
      \<and> sorted_wrt (<) (map fst ds))
   \<and> (\<exists>ds. getPendingAdminRequests None fs = Inr ds)"
proof (intro conjI impI)
  assume "usePendingRequests_queryFn fault db = Inr rs"
  then have rs: "rs = order_created_at_desc
                 (filter (\<lambda>r. req_status r = ''pending'') (admin_requests db))"
    by (auto simp: usePendingRequests_queryFn_def split: option.splits)
  show "mset rs = mset (filter (\<lambda>r. req_status r = ''pending'') (admin_requests db))"
    unfolding rs by (rule order_created_at_desc_props(1))
  show "sorted_wrt (\<lambda>a b. req_created_at b \<le> req_created_at a) rs"
    unfolding rs by (rule order_created_at_desc_props(2))
next
  show "\<exists>rs. usePendingRequests_queryFn None db = Inr rs"
    by (simp add: usePendingRequests_queryFn_def)
next
  assume a: "fs_reachable fs \<and> getPendingAdminRequests fault' fs = Inr ds"
  then have ds: "ds = filter (\<lambda>(k, d). ar_status d = Pending) (ADMIN_REQUESTS_COLLECTION fs)"
    by (auto simp: getPendingAdminRequests_def getDocs_where_def split: option.splits)
  show "set ds = {(k, d). (k, d) \<in> set (ADMIN_REQUESTS_COLLECTION fs) \<and> ar_status d = Pending}"
    unfolding ds by auto
  have "ordered_by_id (ADMIN_REQUESTS_COLLECTION fs)"
    using a fs_reachable_invariant by (auto simp: fs_invariant_def)
  then have "ordered_by_id ds" unfolding ds by (rule ordered_filter)
  then show "sorted_wrt (<) (map fst ds)" by (simp add: ordered_by_id_def)
next
  show "\<exists>ds. getPendingAdminRequests None fs = Inr ds"
    by (simp add: getPendingAdminRequests_def getDocs_where_def)
qed

theorem pending_requests_read_witness:
  "usePendingRequests_queryFn None sample_requests_database =
     Inr [\<lparr>req_id = ''req-5'', req_user_id = ''user-5'', req_email = ''u5@example.org'',
            req_status = ''pending'', req_reviewed_by = None, req_created_at = 9,
            req_reviewed_at = None\<rparr>, sample_request]
   \<and> fs_reachable sample_three_requests
   \<and> map fst (case getPendingAdminRequests None sample_three_requests of
                 Inl e \<Rightarrow> [] | Inr ds \<Rightarrow> ds) = [''user-a'', ''user-b'', ''user-c'']"
  using pending_requests_read
    [of None sample_requests_database
        "[\<lparr>req_id = ''req-5'', req_user_id = ''user-5'', req_email = ''u5@example.org'',
            req_status = ''pending'', req_reviewed_by = None, req_created_at = 9,
            req_reviewed_at = None\<rparr>, sample_request]"
        sample_three_requests None
        "case getPendingAdminRequests None sample_three_requests of
                 Inl e \<Rightarrow> [] | Inr ds \<Rightarrow> ds"]
    sample_three_requests_reachable sample_three_requests_eval
  by (simp add: sample_requests_database_def sample_database_def sample_request_def
        usePendingRequests_queryFn_def order_created_at_desc_def)

text \<open>
  The claim as stated fails for \<open>getPendingAdminRequests\<close>: with requests created in
  the order \<open>user-b\<close>, \<open>user-a\<close>, \<open>user-c\<close> the result lists the creation
  times 2, 1, 3, which is neither ascending nor descending.
\<close>

theorem pending_requests_not_by_creation_time_counterexample:
  "fs_reachable sample_three_requests
   \<and> createdAt_of_result (getPendingAdminRequests None sample_three_requests) = [2, 1, 3]
   \<and> \<not> sorted (createdAt_of_result (getPendingAdminRequests None sample_three_requests))
   \<and> \<not> sorted (rev (createdAt_of_result (getPendingAdminRequests None sample_three_requests)))"
  using sample_three_requests_reachable
  by (simp add: sample_three_requests_eval createdAt_of_result_def)

end
